theory Spec2Isabelle
  imports Main "HOL-Library.Word" "HOL-Library.Sublist"
begin

unbundle bit_operations_syntax

section \<open>Data model of the wasm module (wasmfile.go)\<close>

text \<open>
  Go's fixed-width unsigned integers are words; Go's \<open>int\<close> (indices, lengths) is
  modelled as \<open>int\<close>, since no index of a module in memory reaches \<open>2 ^ 63\<close>.
  Slices of pointers are modelled as lists of values: the operations below are
  stated for modules whose entries are distinct objects, as the decoders produce.
\<close>

type_synonym byte = "8 word"
type_synonym u16 = "16 word"
type_synonym u32 = "32 word"
type_synonym u64 = "64 word"
type_synonym i32 = "32 word"

type_synonym ValType = byte

record TypeEntry =
  Param :: "ValType list"
  Result :: "ValType list"

record LocalNameData =
  StartPC :: u64
  EndPC :: u64
  Index :: int
  VarName :: string

text \<open>
  Modelled from the spec: the \<open>Expression\<close> record, whose type declaration is not among
  the sources. Its fields are the ones the sources read and write, under their names
  there (\<open>Result\<close> is \<open>ExprResult\<close> here, the name being taken by \<open>TypeEntry\<close>). The two
  floating-point constants are kept as their IEEE 754 bit patterns, which is all the
  encoder uses of them.
\<close>

type_synonym Opcode = byte

record Expression =
  Opcode :: Opcode
  OpcodeExt :: int
  Labels :: "int list"
  LabelIndex :: int
  MemAlign :: int
  MemOffset :: int
  ExprResult :: ValType
  I32Value :: i32
  I64Value :: u64
  F32Value :: u32
  F64Value :: u64
  LocalIndex :: int
  GlobalIndex :: int
  FuncIndex :: int
  TypeIndex :: int
  TableIndex :: int
  PC :: u64
  FunctionNeedsLinking :: bool
  FunctionId :: string
  GlobalNeedsLinking :: bool
  GlobalId :: string
  DataOffsetNeedsLinking :: bool
  DataLengthNeedsLinking :: bool
  I32DataId :: string

text \<open>Go's zero value \<open>&Expression{}\<close>.\<close>

definition zero_Expression :: Expression where
  "zero_Expression =
     \<lparr>Opcode = 0, OpcodeExt = 0, Labels = [], LabelIndex = 0, MemAlign = 0, MemOffset = 0,
      ExprResult = 0, I32Value = 0, I64Value = 0, F32Value = 0, F64Value = 0, LocalIndex = 0,
      GlobalIndex = 0, FuncIndex = 0, TypeIndex = 0, TableIndex = 0, PC = 0,
      FunctionNeedsLinking = False, FunctionId = [], GlobalNeedsLinking = False,
      GlobalId = [], DataOffsetNeedsLinking = False, DataLengthNeedsLinking = False,
      I32DataId = []\<rparr>"

text \<open>
  The section entries. A field whose Go name is shared by several structs carries the
  struct's name in front: \<open>ExportEntry.Name\<close> is \<open>ExportName\<close>, \<open>DataEntry.Offset\<close> is
  \<open>DataOffset\<close>, \<open>DataEntry.Data\<close> is \<open>DataBytes\<close>, and so on.
\<close>

type_synonym ExportType = byte

definition ExportFunc :: ExportType where
  "ExportFunc = 0"

record ExportEntry =
  ExportName :: string
  ExportType :: ExportType
  ExportIndex :: int

record ImportEntry =
  Module :: string
  ImportName :: string
  ImportType :: ExportType
  ImportIndex :: int

record CodeEntry =
  Locals :: "ValType list"
  PCValid :: bool
  CodeSectionPtr :: u64
  CodeSectionLen :: u64
  Expression :: "Expression list"

record DataEntry =
  MemIndex :: int
  DataOffset :: "Expression list"
  DataBytes :: "byte list"

record ElemEntry =
  ElemTableIndex :: int
  ElemOffset :: "Expression list"
  Indexes :: "u64 list"

record LocationData =
  startAddress :: u32
  endAddress :: u32
  expression :: "byte list"

text \<open>
  The module: the sections and side tables that the operations below touch. Go maps from
  \<open>int\<close> to \<open>string\<close> are partial functions.
\<close>

record WasmFile =
  Type :: "TypeEntry list"
  Export :: "ExportEntry list"
  Import :: "ImportEntry list"
  Code :: "CodeEntry list"
  Data :: "DataEntry list"
  Elem :: "ElemEntry list"
  functionDebug :: "int \<rightharpoonup> string"
  functionSignature :: "int \<rightharpoonup> string"
  FunctionNames :: "int \<rightharpoonup> string"
  dataNames :: "int \<rightharpoonup> string"

text \<open>
  Errors and panics of the operations. \<open>IndexOutOfRange\<close> stands for Go's run-time panic
  on an index or a slice bound out of range, \<open>WriteError\<close> for an error of an \<open>io.Writer\<close>.
\<close>

datatype error =
    DataNotFound string
  | NonConstantDataOffset
  | UnsupportedOpcode Opcode
  | UnsupportedOpcodeFC int
  | WatError string
  | IndexOutOfRange
  | WriteError string

section \<open>GetLocalVarName (dwarf.go)\<close>

text \<open>
  The loop \<open>for _, lnd := range wf.localNames\<close>: the first entry whose index is the
  one asked for and whose range holds the pc, both comparisons inclusive.
\<close>

fun GetLocalVarName :: "LocalNameData list \<Rightarrow> u64 \<Rightarrow> int \<Rightarrow> string" where
  "GetLocalVarName [] pc index = ''''"
| "GetLocalVarName (lnd # rest) pc index =
     (if Index lnd = index \<and> (pc \<ge> StartPC lnd \<and> pc \<le> EndPC lnd) then VarName lnd
      else GetLocalVarName rest pc index)"

section \<open>TypeEntry.Equals and AddTypeMaybe (wasmfile.go)\<close>

text \<open>
  The loop \<open>for idx, v := range te.Param { if v != te2.Param[idx] { return false } }\<close>,
  entered only once both lengths are known to agree, so the index is in range.
\<close>

fun vals_equal_from :: "nat \<Rightarrow> ValType list \<Rightarrow> ValType list \<Rightarrow> bool" where
  "vals_equal_from idx [] ys = True"
| "vals_equal_from idx (v # vs) ys =
     (if v \<noteq> ys ! idx then False else vals_equal_from (Suc idx) vs ys)"

definition Equals :: "TypeEntry \<Rightarrow> TypeEntry \<Rightarrow> bool" where
  "Equals te te2 =
     (if length (Param te) \<noteq> length (Param te2) \<or> length (Result te) \<noteq> length (Result te2)
      then False
      else if \<not> vals_equal_from 0 (Param te) (Param te2) then False
      else if \<not> vals_equal_from 0 (Result te) (Result te2) then False
      else True)"

text \<open>The scan of \<open>wf.Type\<close> for the first entry equal to \<open>te\<close>.\<close>

fun find_type :: "nat \<Rightarrow> TypeEntry list \<Rightarrow> TypeEntry \<Rightarrow> nat option" where
  "find_type idx [] te = None"
| "find_type idx (t # ts) te = (if Equals t te then Some idx else find_type (Suc idx) ts te)"

text \<open>
  \<open>AddTypeMaybe\<close> on the type vector: the vector afterwards and the index returned.
\<close>

definition AddTypeMaybe :: "TypeEntry list \<Rightarrow> TypeEntry \<Rightarrow> TypeEntry list \<times> int" where
  "AddTypeMaybe types te =
     (case find_type 0 types te of
        Some idx \<Rightarrow> (types, int idx)
      | None \<Rightarrow> (types @ [te], int (length (types @ [te])) - 1))"

section \<open>FindFunction (wasmfile.go)\<close>

text \<open>
  The scan of \<open>wf.Code\<close> with its running index. The comparison is the source's, in
  unsigned 64-bit arithmetic: \<open>pc >= c.CodeSectionPtr && pc <= c.CodeSectionPtr + c.CodeSectionLen\<close>.
\<close>

fun FindFunction_from :: "int \<Rightarrow> int \<Rightarrow> CodeEntry list \<Rightarrow> u64 \<Rightarrow> int" where
  "FindFunction_from nimports index [] pc = -1"
| "FindFunction_from nimports index (c # cs) pc =
     (if PCValid c \<and> pc \<ge> CodeSectionPtr c \<and> pc \<le> CodeSectionPtr c + CodeSectionLen c
      then nimports + index
      else FindFunction_from nimports (index + 1) cs pc)"

definition FindFunction :: "WasmFile \<Rightarrow> u64 \<Rightarrow> int" where
  "FindFunction wfile pc = FindFunction_from (int (length (Import wfile))) 0 (Code wfile) pc"

section \<open>Renumber\_functions (wasmfile.go)\<close>

text \<open>
  The remap is a Go map, which \<open>for o, n := range remap\<close> visits in an order the language
  does not fix. It is modelled as the list of its pairs in the order of the visit, a list
  with no key twice; what is proved of the result holds for every such order.
\<close>

type_synonym remap = "(int \<times> int) list"

definition move_entry :: "(int \<rightharpoonup> string) \<Rightarrow> int \<Rightarrow> int \<Rightarrow> (int \<rightharpoonup> string) \<Rightarrow> (int \<rightharpoonup> string)" where
  "move_entry src old new dst = (case src old of Some v \<Rightarrow> dst(new \<mapsto> v) | None \<Rightarrow> dst)"

fun renumber_loop ::
  "remap \<Rightarrow> WasmFile \<Rightarrow> (int \<rightharpoonup> string) \<times> (int \<rightharpoonup> string) \<times> (int \<rightharpoonup> string)
     \<Rightarrow> (int \<rightharpoonup> string) \<times> (int \<rightharpoonup> string) \<times> (int \<rightharpoonup> string)" where
  "renumber_loop [] wfile acc = acc"
| "renumber_loop ((old, new) # rest) wfile (newFunctionNames, newFunctionDebug, newFunctionSignature) =
     renumber_loop rest wfile
       (move_entry (FunctionNames wfile) old new newFunctionNames,
        move_entry (functionDebug wfile) old new newFunctionDebug,
        move_entry (functionSignature wfile) old new newFunctionSignature)"

definition Renumber_functions :: "remap \<Rightarrow> WasmFile \<Rightarrow> WasmFile" where
  "Renumber_functions remap wfile =
     (case renumber_loop remap wfile (Map.empty, Map.empty, Map.empty) of
        (newFunctionNames, newFunctionDebug, newFunctionSignature) \<Rightarrow>
          wfile\<lparr>FunctionNames := newFunctionNames,
             functionDebug := newFunctionDebug,
             functionSignature := newFunctionSignature\<rparr>)"

section \<open>ExpressionFromWat and InsertAfterRelocating (wasmfile.go)\<close>

text \<open>
  \<open>strings.Split(d, "\n")\<close>, the cut at the first \<open>;;\<close> and \<open>strings.Trim\<close> with a set of
  characters. The constant \<open>Whitespace\<close> and the method \<open>Expression.DecodeWat\<close> are not among
  the sources: both are parameters, \<open>DecodeWat\<close> as the function from a line to the decoded
  expression or the error.
\<close>

fun split_lines :: "string \<Rightarrow> string list" where
  "split_lines [] = [[]]"
| "split_lines (c # cs) =
     (if c = CHR 0x0A then [] # split_lines cs
      else (case split_lines cs of l # ls \<Rightarrow> (c # l) # ls | [] \<Rightarrow> [[c]]))"

fun cut_comment :: "string \<Rightarrow> string" where
  "cut_comment (a # b # cs) =
     (if a = CHR '';'' \<and> b = CHR '';'' then [] else a # cut_comment (b # cs))"
| "cut_comment cs = cs"

definition Trim :: "string \<Rightarrow> string \<Rightarrow> string" where
  "Trim s cutset =
     rev (dropWhile (\<lambda>c. c \<in> set cutset) (rev (dropWhile (\<lambda>c. c \<in> set cutset) s)))"

fun decode_lines ::
  "string \<Rightarrow> (string \<Rightarrow> error + Expression) \<Rightarrow> Expression list \<Rightarrow> string list
     \<Rightarrow> Expression list \<times> error option" where
  "decode_lines Whitespace DecodeWat newex [] = (newex, None)"
| "decode_lines Whitespace DecodeWat newex (toline # lines) =
     (let toline = Trim (cut_comment toline) Whitespace in
      if length toline > 0 then
        (case DecodeWat toline of
           Inl err \<Rightarrow> (newex, Some err)
         | Inr newe \<Rightarrow> decode_lines Whitespace DecodeWat (newex @ [newe]) lines)
      else decode_lines Whitespace DecodeWat newex lines)"

definition ExpressionFromWat ::
  "string \<Rightarrow> (string \<Rightarrow> error + Expression) \<Rightarrow> string \<Rightarrow> Expression list \<times> error option" where
  "ExpressionFromWat Whitespace DecodeWat d = decode_lines Whitespace DecodeWat [] (split_lines d)"

text \<open>
  The loop of \<open>InsertAfterRelocating\<close>, with \<open>adjustedExpression\<close> as the accumulator.
\<close>

fun insert_after_loop :: "Expression list \<Rightarrow> Expression list \<Rightarrow> Expression list \<Rightarrow> Expression list" where
  "insert_after_loop newex adjustedExpression [] = adjustedExpression"
| "insert_after_loop newex adjustedExpression (e # es) =
     insert_after_loop newex
       (if DataOffsetNeedsLinking e then (adjustedExpression @ [e]) @ newex
        else adjustedExpression @ [e])
       es"

definition InsertAfterRelocating ::
  "string \<Rightarrow> (string \<Rightarrow> error + Expression) \<Rightarrow> string \<Rightarrow> CodeEntry \<Rightarrow> CodeEntry \<times> error option" where
  "InsertAfterRelocating Whitespace DecodeWat to ce =
     (case ExpressionFromWat Whitespace DecodeWat to of
        (newex, Some err) \<Rightarrow> (ce, Some err)
      | (newex, None) \<Rightarrow> (ce\<lparr>Expression := insert_after_loop newex [] (Expression ce)\<rparr>, None))"

text \<open>
  The scenario of the data relocation: the body \<open>i32.const offset($D0)\<close>, flagged, followed
  by an unflagged \<open>end\<close>, and the snippet \<open>global.get $base; i32.add\<close>. The decoder of a
  line is a stand-in that accepts the two lines of the snippet.
\<close>

definition sample_DecodeWat :: "string \<Rightarrow> error + Expression" where
  "sample_DecodeWat l =
     (if l = ''global.get $base''
        then Inr (zero_Expression\<lparr>Opcode := 0x23, GlobalNeedsLinking := True, GlobalId := ''$base''\<rparr>)
      else if l = ''i32.add'' then Inr (zero_Expression\<lparr>Opcode := 0x6A\<rparr>)
      else Inl (WatError l))"

section \<open>Opcode tables and the varint writers\<close>

text \<open>
  Modelled from the spec: the table \<open>InstrToOpcode\<close> from a mnemonic to its opcode, the
  0xFC table \<open>instrToOpcodeFC\<close> and the constant \<open>ExtendedOpcodeFC\<close>, none of which is among
  the sources. The mnemonics are those the sources look up; the numbers are those of the
  WebAssembly binary format. A Go map gives the zero value for a key it does not hold.
\<close>

definition opcode_table :: "(string \<times> Opcode) list" where
  "opcode_table =
     [(''unreachable'', 0x00), (''nop'', 0x01), (''block'', 0x02), (''loop'', 0x03),
      (''if'', 0x04), (''else'', 0x05), (''end'', 0x0B), (''br'', 0x0C), (''br_if'', 0x0D),
      (''br_table'', 0x0E), (''return'', 0x0F), (''call'', 0x10),
      (''call_indirect'', 0x11), (''drop'', 0x1A), (''select'', 0x1B),
      (''local.get'', 0x20), (''local.set'', 0x21), (''local.tee'', 0x22),
      (''global.get'', 0x23), (''global.set'', 0x24), (''i32.load'', 0x28),
      (''i64.load'', 0x29), (''f32.load'', 0x2A), (''f64.load'', 0x2B),
      (''i32.load8_s'', 0x2C), (''i32.load8_u'', 0x2D), (''i32.load16_s'', 0x2E),
      (''i32.load16_u'', 0x2F), (''i64.load8_s'', 0x30), (''i64.load8_u'', 0x31),
      (''i64.load16_s'', 0x32), (''i64.load16_u'', 0x33), (''i64.load32_s'', 0x34),
      (''i64.load32_u'', 0x35), (''i32.store'', 0x36), (''i64.store'', 0x37),
      (''f32.store'', 0x38), (''f64.store'', 0x39), (''i32.store8'', 0x3A),
      (''i32.store16'', 0x3B), (''i64.store8'', 0x3C), (''i64.store16'', 0x3D),
      (''i64.store32'', 0x3E), (''memory.size'', 0x3F), (''memory.grow'', 0x40),
      (''i32.const'', 0x41), (''i64.const'', 0x42), (''f32.const'', 0x43),
      (''f64.const'', 0x44), (''i32.eqz'', 0x45), (''i32.eq'', 0x46), (''i32.ne'', 0x47),
      (''i32.lt_s'', 0x48), (''i32.lt_u'', 0x49), (''i32.gt_s'', 0x4A),
      (''i32.gt_u'', 0x4B), (''i32.le_s'', 0x4C), (''i32.le_u'', 0x4D),
      (''i32.ge_s'', 0x4E), (''i32.ge_u'', 0x4F), (''i64.eqz'', 0x50), (''i64.eq'', 0x51),
      (''i64.ne'', 0x52), (''i64.lt_s'', 0x53), (''i64.lt_u'', 0x54), (''i64.gt_s'', 0x55),
      (''i64.gt_u'', 0x56), (''i64.le_s'', 0x57), (''i64.le_u'', 0x58),
      (''i64.ge_s'', 0x59), (''i64.ge_u'', 0x5A), (''f32.eq'', 0x5B), (''f32.ne'', 0x5C),
      (''f32.lt'', 0x5D), (''f32.gt'', 0x5E), (''f32.le'', 0x5F), (''f32.ge'', 0x60),
      (''f64.eq'', 0x61), (''f64.ne'', 0x62), (''f64.lt'', 0x63), (''f64.gt'', 0x64),
      (''f64.le'', 0x65), (''f64.ge'', 0x66), (''i32.clz'', 0x67), (''i32.ctz'', 0x68),
      (''i32.popcnt'', 0x69), (''i32.add'', 0x6A), (''i32.sub'', 0x6B),
      (''i32.mul'', 0x6C), (''i32.div_s'', 0x6D), (''i32.div_u'', 0x6E),
      (''i32.rem_s'', 0x6F), (''i32.rem_u'', 0x70), (''i32.and'', 0x71),
      (''i32.or'', 0x72), (''i32.xor'', 0x73), (''i32.shl'', 0x74), (''i32.shr_s'', 0x75),
      (''i32.shr_u'', 0x76), (''i32.rotl_s'', 0x77), (''i32.rotr_u'', 0x78),
      (''i64.clz'', 0x79), (''i64.ctz'', 0x7A), (''i64.popcnt'', 0x7B),
      (''i64.add'', 0x7C), (''i64.sub'', 0x7D), (''i64.mul'', 0x7E), (''i64.div_s'', 0x7F),
      (''i64.div_u'', 0x80), (''i64.rem_s'', 0x81), (''i64.rem_u'', 0x82),
      (''i64.and'', 0x83), (''i64.or'', 0x84), (''i64.xor'', 0x85), (''i64.shl'', 0x86),
      (''i64.shr_s'', 0x87), (''i64.shr_u'', 0x88), (''i64.rotl_s'', 0x89),
      (''i64.rotr_u'', 0x8A), (''f32.abs'', 0x8B), (''f32.neg'', 0x8C),
      (''f32.ceil'', 0x8D), (''f32.floor'', 0x8E), (''f32.trunc'', 0x8F),
      (''f32.nearest'', 0x90), (''f32.sqrt'', 0x91), (''f32.add'', 0x92),
      (''f32.sub'', 0x93), (''f32.mul'', 0x94), (''f32.div'', 0x95), (''f32.min'', 0x96),
      (''f32.max'', 0x97), (''f32.copysign'', 0x98), (''f64.abs'', 0x99),
      (''f64.neg'', 0x9A), (''f64.ceil'', 0x9B), (''f64.floor'', 0x9C),
      (''f64.trunc'', 0x9D), (''f64.nearest'', 0x9E), (''f64.sqrt'', 0x9F),
      (''f64.add'', 0xA0), (''f64.sub'', 0xA1), (''f64.mul'', 0xA2), (''f64.div'', 0xA3),
      (''f64.min'', 0xA4), (''f64.max'', 0xA5), (''f64.copysign'', 0xA6),
      (''i32.wrap_i64'', 0xA7), (''i32.trunc_f32_s'', 0xA8), (''i32.trunc_f32_u'', 0xA9),
      (''i32.trunc_f64_s'', 0xAA), (''i32.trunc_f64_u'', 0xAB),
      (''i64.extend_i32_s'', 0xAC), (''i64.extend_i32_u'', 0xAD),
      (''i64.trunc_f32_s'', 0xAE), (''i64.trunc_f32_u'', 0xAF),
      (''i64.trunc_f64_s'', 0xB0), (''i64.trunc_f64_u'', 0xB1),
      (''f32.convert_i32_s'', 0xB2), (''f32.convert_i32_u'', 0xB3),
      (''f32.convert_i64_s'', 0xB4), (''f32.convert_i64_u'', 0xB5),
      (''f32.demote_f64'', 0xB6), (''f64.convert_i32_s'', 0xB7),
      (''f64.convert_i32_u'', 0xB8), (''f64.convert_i64_s'', 0xB9),
      (''f64.convert_i64_u'', 0xBA), (''f64.promote_f32'', 0xBB),
      (''i32.reinterpret_f32'', 0xBC), (''i64.reinterpret_f64'', 0xBD),
      (''f32.reinterpret_i32'', 0xBE), (''f64.reinterpret_i64'', 0xBF),
      (''i32.extend8_s'', 0xC0), (''i32.extend16_s'', 0xC1), (''i64.extend8_s'', 0xC2),
      (''i64.extend16_s'', 0xC3), (''i64.extend32_s'', 0xC4)]"

definition InstrToOpcode :: "string \<Rightarrow> Opcode" where
  "InstrToOpcode name = (case map_of opcode_table name of Some opcode \<Rightarrow> opcode | None \<Rightarrow> 0)"




text \<open>
  Modelled from the spec: the unsigned and the signed LEB128 encodings of section 4.A, on
  the value of the 64-bit argument; the varint writers of the sources' package are not
  among the sources.
\<close>

function uleb128 :: "nat \<Rightarrow> byte list" where
  "uleb128 n = (if n < 128 then [of_nat n] else of_nat (n mod 128 + 128) # uleb128 (n div 128))"
  by pat_completeness auto
termination
  by (relation "measure (\<lambda>n. n)") auto

function sleb128 :: "int \<Rightarrow> byte list" where
  "sleb128 n =
     (if (n div 128 = 0 \<and> n mod 128 < 64) \<or> (n div 128 = -1 \<and> 64 \<le> n mod 128)
      then [of_int (n mod 128)]
      else of_int (n mod 128 + 128) # sleb128 (n div 128))"
  by pat_completeness auto
termination
proof (relation "measure (\<lambda>n. nat \<bar>n\<bar>)")
  show "wf (measure (\<lambda>n. nat \<bar>n\<bar>))" by simp
next
  fix n :: int
  assume a: "\<not> ((n div 128 = 0 \<and> n mod 128 < 64) \<or> (n div 128 = -1 \<and> 64 \<le> n mod 128))"
  have "\<bar>n div 128\<bar> < \<bar>n\<bar>"
  proof (cases "0 \<le> n")
    case True
    with a have "n \<noteq> 0" by auto
    with True have "0 < n" by simp
    then have "n div 128 < n" by (rule int_div_less_self) simp
    moreover have "0 \<le> n div 128" using True by (simp add: pos_imp_zdiv_nonneg_iff)
    ultimately show ?thesis using True by simp
  next
    case False
    then have neg: "n < 0" by simp
    with a have "n \<noteq> -1" by auto
    with neg have "n \<le> -2" by simp
    have e: "n = 128 * (n div 128) + n mod 128" by simp
    have r: "0 \<le> n mod 128" "n mod 128 < 128" by simp_all
    have q: "n div 128 < 0" using neg by (simp add: div_neg_pos_less0)
    have "n < n div 128" using e r q \<open>n \<le> -2\<close> by linarith
    with q neg show ?thesis by simp
  qed
  then show "(n div 128, n) \<in> measure (\<lambda>n. nat \<bar>n\<bar>)" by simp
qed

declare uleb128.simps [simp del] sleb128.simps [simp del]

text \<open>Go's conversion \<open>uint64(x)\<close> of an \<open>int\<close>, as the value of the result.\<close>

definition uint64_of_int :: "int \<Rightarrow> nat" where
  "uint64_of_int x = nat (x mod 2 ^ 64)"

text \<open>\<open>binary.LittleEndian\<close>: appending and reading fixed-width integers.\<close>

definition AppendUint32 :: "u32 \<Rightarrow> byte list" where
  "AppendUint32 v = [ucast v, ucast (drop_bit 8 v), ucast (drop_bit 16 v), ucast (drop_bit 24 v)]"


definition Uint32 :: "byte list \<Rightarrow> u32" where
  "Uint32 b = ucast (b ! 0) OR push_bit 8 (ucast (b ! 1)) OR push_bit 16 (ucast (b ! 2))
                OR push_bit 24 (ucast (b ! 3))"

definition Uint16 :: "byte list \<Rightarrow> u16" where
  "Uint16 b = ucast (b ! 0) OR push_bit 8 (ucast (b ! 1))"

section \<open>Expression.EncodeBinary (wasmfile.go)\<close>

text \<open>
  The \<open>io.Writer\<close>: a state and its \<open>Write\<close>, which takes the bytes and gives the state
  afterwards and the error, if any (the count of bytes it also returns is never read).
  \<open>on_success\<close> is the source's \<open>if err != nil { return err }\<close> between two writes.
\<close>

type_synonym 'w Write = "'w \<Rightarrow> byte list \<Rightarrow> 'w \<times> error option"

definition on_success :: "'w \<times> error option \<Rightarrow> ('w \<Rightarrow> 'w \<times> error option) \<Rightarrow> 'w \<times> error option" where
  "on_success r continue = (case r of (w, Some err) \<Rightarrow> (w, Some err) | (w, None) \<Rightarrow> continue w)"

text \<open>
  Modelled from the spec: \<open>writeUvarint\<close> and \<open>writeVarint\<close>, which are not among the
  sources, as one \<open>Write\<close> of the LEB128 bytes of the argument, returning the writer's error.
\<close>

definition writeUvarint :: "'w Write \<Rightarrow> 'w \<Rightarrow> nat \<Rightarrow> 'w \<times> error option" where
  "writeUvarint Write w x = Write w (uleb128 x)"

definition writeVarint :: "'w Write \<Rightarrow> 'w \<Rightarrow> int \<Rightarrow> 'w \<times> error option" where
  "writeVarint Write w x = Write w (sleb128 x)"

text \<open>\<open>bytes.Buffer\<close>, the writer that takes every write: the state is the bytes so far.\<close>

definition buffer_Write :: "(byte list) Write" where
  "buffer_Write buf p = (buf @ p, None)"




text \<open>The loop \<open>for _, l := range e.Labels\<close> of the \<open>br_table\<close> branch.\<close>

fun write_labels :: "'w Write \<Rightarrow> 'w \<Rightarrow> int list \<Rightarrow> 'w \<times> error option" where
  "write_labels Write w [] = (w, None)"
| "write_labels Write w (l # ls) =
     on_success (writeUvarint Write w (uint64_of_int l)) (\<lambda>w. write_labels Write w ls)"





section \<open>CodeEntry.ResolveRelocations (wasmfile.go)\<close>

text \<open>
  \<open>LookupDataId\<close> is not among the sources: it is the parameter \<open>LookupDataId\<close>, the function
  from a data name to the index the module gives it, -1 for a name it does not find. The
  expressions are updated in place, one after the other, so at an error the ones before
  the failing one have their new value already: the result is the body as it stands when
  the function returns, and the error. \<open>int32(base_pointer)\<close> keeps the low 32 bits.
\<close>

fun ResolveRelocations ::
  "(string \<Rightarrow> int) \<Rightarrow> DataEntry list \<Rightarrow> int \<Rightarrow> Expression list
     \<Rightarrow> Expression list \<times> error option" where
  "ResolveRelocations LookupDataId data base_pointer [] = ([], None)"
| "ResolveRelocations LookupDataId data base_pointer (e # es) =
     (if DataOffsetNeedsLinking e then
        (if LookupDataId (I32DataId e) = -1 then (e # es, Some (DataNotFound (I32DataId e)))
         else if LookupDataId (I32DataId e) < 0
                 \<or> int (length data) \<le> LookupDataId (I32DataId e)
           then (e # es, Some IndexOutOfRange)
         else if length (DataOffset (data ! nat (LookupDataId (I32DataId e)))) \<noteq> 1
           then (e # es, Some NonConstantDataOffset)
         else if Opcode (DataOffset (data ! nat (LookupDataId (I32DataId e))) ! 0)
                   \<noteq> InstrToOpcode ''i32.const''
           then (e # es, Some NonConstantDataOffset)
         else
           (case ResolveRelocations LookupDataId data base_pointer es of
              (es', err) \<Rightarrow>
                (e\<lparr>I32Value :=
                     I32Value (DataOffset (data ! nat (LookupDataId (I32DataId e))) ! 0)
                       - word_of_int base_pointer\<rparr> # es', err)))
      else
        (case ResolveRelocations LookupDataId data base_pointer es of
           (es', err) \<Rightarrow> (e # es', err)))"

text \<open>
  The relocation in the words of the specification: an expression is resolvable when its
  data name is found and the segment's offset is a single \<open>i32.const\<close> expression; its
  relocated value is that constant minus the base pointer.
\<close>

definition resolvable :: "(string \<Rightarrow> int) \<Rightarrow> DataEntry list \<Rightarrow> Expression \<Rightarrow> bool" where
  "resolvable LookupDataId data e \<longleftrightarrow>
     LookupDataId (I32DataId e) \<noteq> -1
     \<and> length (DataOffset (data ! nat (LookupDataId (I32DataId e)))) = 1
     \<and> Opcode (DataOffset (data ! nat (LookupDataId (I32DataId e))) ! 0) = InstrToOpcode ''i32.const''"

definition relocated :: "(string \<Rightarrow> int) \<Rightarrow> DataEntry list \<Rightarrow> int \<Rightarrow> Expression \<Rightarrow> Expression" where
  "relocated LookupDataId data base_pointer e =
     (if DataOffsetNeedsLinking e
      then e\<lparr>I32Value := I32Value (DataOffset (data ! nat (LookupDataId (I32DataId e))) ! 0)
                             - word_of_int base_pointer\<rparr>
      else e)"

section \<open>AddData (wasmfile.go)\<close>

text \<open>
  \<open>prev.Offset[0]\<close> panics when the last segment has no offset expression. The pointer
  arithmetic is Go's on \<open>int32\<close>: it wraps around.
\<close>

definition AddData :: "string \<Rightarrow> byte list \<Rightarrow> WasmFile \<Rightarrow> error + WasmFile" where
  "AddData name data wfile =
     (if length (Data wfile) > 0 \<and> DataOffset (last (Data wfile)) = [] then Inl IndexOutOfRange
      else
        let ptr = (if length (Data wfile) > 0
                   then I32Value (DataOffset (last (Data wfile)) ! 0)
                          + of_nat (length (DataBytes (last (Data wfile))))
                   else (0 :: i32));
            ptr = (ptr + 7) AND (-8);
            idx = int (length (Data wfile))
        in Inr (wfile\<lparr>Data := Data wfile @
                         [\<lparr>MemIndex = 0,
                           DataOffset = [zero_Expression\<lparr>Opcode := InstrToOpcode ''i32.const'',
                                                          I32Value := ptr\<rparr>],
                           DataBytes = data\<rparr>],
                      dataNames := (dataNames wfile)(idx \<mapsto> name)\<rparr>))"

section \<open>ReadLocation (dwarf.go)\<close>

text \<open>
  The walk over \<open>wf.dwarfLoc\<close> from \<open>ptr\<close>. A read or a slice that leaves the buffer is Go's
  panic. The buffer is taken with no spare capacity behind its length, so that slicing
  \<open>dwarfLoc[ptr : ptr+explen]\<close> panics as soon as it passes the end. The pointer is a \<open>nat\<close>:
  it stays within the buffer as long as the walk goes on.
\<close>

function ReadLocation_loop ::
  "byte list \<Rightarrow> nat \<Rightarrow> u32 \<Rightarrow> LocationData list \<Rightarrow> error + LocationData list" where
  "ReadLocation_loop dwarfLoc ptr baseAddress ld =
     (if length dwarfLoc < ptr + 4 then Inl IndexOutOfRange
      else if length dwarfLoc < ptr + 8 then Inl IndexOutOfRange
      else if Uint32 (drop ptr dwarfLoc) = 0 \<and> Uint32 (drop (ptr + 4) dwarfLoc) = 0 then Inr ld
      else if Uint32 (drop ptr dwarfLoc) = 0xffffffff then
        ReadLocation_loop dwarfLoc (ptr + 8) (Uint32 (drop (ptr + 4) dwarfLoc)) ld
      else if length dwarfLoc < ptr + 10 then Inl IndexOutOfRange
      else if length dwarfLoc < ptr + 10 + unat (Uint16 (drop (ptr + 8) dwarfLoc))
        then Inl IndexOutOfRange
      else
        ReadLocation_loop dwarfLoc (ptr + 10 + unat (Uint16 (drop (ptr + 8) dwarfLoc))) baseAddress
          (ld @ [\<lparr>startAddress = baseAddress + Uint32 (drop ptr dwarfLoc),
                   endAddress = baseAddress + Uint32 (drop (ptr + 4) dwarfLoc),
                   expression = take (unat (Uint16 (drop (ptr + 8) dwarfLoc)))
                                  (drop (ptr + 10) dwarfLoc)\<rparr>]))"
  by pat_completeness auto
termination
  by (relation "measure (\<lambda>(dwarfLoc, ptr, baseAddress, ld). length dwarfLoc - ptr)") auto

declare ReadLocation_loop.simps [simp del]

definition ReadLocation :: "byte list \<Rightarrow> nat \<Rightarrow> error + LocationData list" where
  "ReadLocation dwarfLoc p = ReadLocation_loop dwarfLoc p 0 []"

text \<open>
  The location list in the words of the specification: a sequence of entries
  \<open>(low, high, expr_len, expr_bytes)\<close> and of base-address selections (\<open>low = 0xFFFFFFFF\<close>,
  no expression), closed by a double zero. \<open>loc_bytes\<close> is its layout in \<open>.debug_loc\<close>,
  \<open>loc_records\<close> the records it stands for under a base address.
\<close>

datatype loc_item = LocEntry u32 u32 "byte list" | BaseSelect u32

fun loc_item_bytes :: "loc_item \<Rightarrow> byte list" where
  "loc_item_bytes (LocEntry low high expr) =
     AppendUint32 low @ AppendUint32 high
       @ [of_nat (length expr), of_nat (length expr div 256)] @ expr"
| "loc_item_bytes (BaseSelect high) = AppendUint32 0xffffffff @ AppendUint32 high"

definition loc_bytes :: "loc_item list \<Rightarrow> byte list" where
  "loc_bytes items = concat (map loc_item_bytes items) @ AppendUint32 0 @ AppendUint32 0"

fun loc_item_ok :: "loc_item \<Rightarrow> bool" where
  "loc_item_ok (LocEntry low high expr) =
     (low \<noteq> 0xffffffff \<and> (low \<noteq> 0 \<or> high \<noteq> 0) \<and> length expr < 65536)"
| "loc_item_ok (BaseSelect high) = True"

fun loc_records :: "u32 \<Rightarrow> loc_item list \<Rightarrow> LocationData list" where
  "loc_records base [] = []"
| "loc_records base (LocEntry low high expr # items) =
     \<lparr>startAddress = base + low, endAddress = base + high, expression = expr\<rparr>
       # loc_records base items"
| "loc_records base (BaseSelect high # items) = loc_records high items"

section \<open>Properties\<close>

subsection \<open>Local variable names\<close>

lemma GetLocalVarName_none:
  "\<forall>l\<in>set lns. \<not> (Index l = index \<and> StartPC l \<le> pc \<and> pc \<le> EndPC l)
   \<Longrightarrow> GetLocalVarName lns pc index = ''''"
  by (induction lns) auto

lemma GetLocalVarName_first:
  "i < length lns \<Longrightarrow>
   Index (lns ! i) = index \<and> StartPC (lns ! i) \<le> pc \<and> pc \<le> EndPC (lns ! i) \<Longrightarrow>
   \<forall>j<i. \<not> (Index (lns ! j) = index \<and> StartPC (lns ! j) \<le> pc \<and> pc \<le> EndPC (lns ! j)) \<Longrightarrow>
   GetLocalVarName lns pc index = VarName (lns ! i)"
proof (induction lns arbitrary: i)
  case Nil
  then show ?case by simp
next
  case (Cons l lns)
  show ?case
  proof (cases i)
    case 0
    with Cons.prems show ?thesis by simp
  next
    case (Suc k)
    from Cons.prems(3) Suc
    have miss: "\<not> (Index l = index \<and> StartPC l \<le> pc \<and> pc \<le> EndPC l)"
      by (metis nth_Cons_0 zero_less_Suc)
    have rest: "\<forall>j<k. \<not> (Index (lns ! j) = index \<and> StartPC (lns ! j) \<le> pc \<and> pc \<le> EndPC (lns ! j))"
    proof (intro allI impI)
      fix j assume "j < k"
      then have "Suc j < i" using Suc by simp
      with Cons.prems(3) show "\<not> (Index (lns ! j) = index \<and> StartPC (lns ! j) \<le> pc \<and> pc \<le> EndPC (lns ! j))"
        by (metis nth_Cons_Suc)
    qed
    have "GetLocalVarName lns pc index = VarName (lns ! k)"
      using Cons.IH [of k] Cons.prems(1,2) Suc rest by simp
    with miss Suc show ?thesis by auto
  qed
qed

text \<open>
  C9. A recorded range is closed at both ends: an entry whose index matches and whose
  \<open>EndPC\<close> (or \<open>StartPC\<close>) is exactly the pc is a match. Of several matching entries the
  earliest recorded one gives the name, and with no matching entry the name is empty.
\<close>

theorem C9_GetLocalVarName_closed_range_first_match:
  "(\<forall>i. i < length lns \<and> Index (lns ! i) = index
          \<and> StartPC (lns ! i) \<le> pc \<and> pc \<le> EndPC (lns ! i)
          \<and> (\<forall>j<i. \<not> (Index (lns ! j) = index \<and> StartPC (lns ! j) \<le> pc \<and> pc \<le> EndPC (lns ! j)))
        \<longrightarrow> GetLocalVarName lns pc index = VarName (lns ! i))
   \<and> (\<forall>rest l. Index l = index \<and> StartPC l \<le> EndPC l \<and> (pc = EndPC l \<or> pc = StartPC l)
        \<longrightarrow> GetLocalVarName (l # rest) pc index = VarName l)
   \<and> ((\<forall>l\<in>set lns. \<not> (Index l = index \<and> StartPC l \<le> pc \<and> pc \<le> EndPC l))
        \<longrightarrow> GetLocalVarName lns pc index = '''')"
proof (intro conjI allI impI)
  fix i
  assume "i < length lns \<and> Index (lns ! i) = index
          \<and> StartPC (lns ! i) \<le> pc \<and> pc \<le> EndPC (lns ! i)
          \<and> (\<forall>j<i. \<not> (Index (lns ! j) = index \<and> StartPC (lns ! j) \<le> pc \<and> pc \<le> EndPC (lns ! j)))"
  then show "GetLocalVarName lns pc index = VarName (lns ! i)"
    using GetLocalVarName_first [of i lns index pc] by blast
next
  fix rest and l :: LocalNameData
  assume "Index l = index \<and> StartPC l \<le> EndPC l \<and> (pc = EndPC l \<or> pc = StartPC l)"
  then show "GetLocalVarName (l # rest) pc index = VarName l" by auto
next
  assume "\<forall>l\<in>set lns. \<not> (Index l = index \<and> StartPC l \<le> pc \<and> pc \<le> EndPC l)"
  then show "GetLocalVarName lns pc index = ''''" by (rule GetLocalVarName_none)
qed

theorem C9_GetLocalVarName_witness:
  "GetLocalVarName
     [\<lparr>StartPC = 100, EndPC = 120, Index = 0, VarName = ''x''\<rparr>,
      \<lparr>StartPC = 110, EndPC = 130, Index = 0, VarName = ''y''\<rparr>] 120 0 = ''x''
   \<and> GetLocalVarName
     [\<lparr>StartPC = 100, EndPC = 120, Index = 0, VarName = ''x''\<rparr>,
      \<lparr>StartPC = 110, EndPC = 130, Index = 0, VarName = ''y''\<rparr>] 200 0 = ''''"
  using C9_GetLocalVarName_closed_range_first_match
    [of "[\<lparr>StartPC = 100, EndPC = 120, Index = 0, VarName = ''x''\<rparr>,
          \<lparr>StartPC = 110, EndPC = 130, Index = 0, VarName = ''y''\<rparr>]" 0 120]
    C9_GetLocalVarName_closed_range_first_match
    [of "[\<lparr>StartPC = 100, EndPC = 120, Index = 0, VarName = ''x''\<rparr>,
          \<lparr>StartPC = 110, EndPC = 130, Index = 0, VarName = ''y''\<rparr>]" 0 200]
  by simp

subsection \<open>Type interning\<close>

lemma vals_equal_from_iff:
  "idx + length xs = length ys \<Longrightarrow> vals_equal_from idx xs ys \<longleftrightarrow> xs = drop idx ys"
proof (induction xs arbitrary: idx)
  case Nil
  then show ?case by simp
next
  case (Cons v vs)
  then have lt: "idx < length ys" by simp
  then have d: "drop idx ys = ys ! idx # drop (Suc idx) ys"
    by (simp add: Cons_nth_drop_Suc)
  from Cons have "vals_equal_from (Suc idx) vs ys \<longleftrightarrow> vs = drop (Suc idx) ys" by simp
  with d show ?case by auto
qed

text \<open>\<open>Equals\<close> is structural equality of the parameter and the result vectors.\<close>

lemma Equals_iff: "Equals te te2 \<longleftrightarrow> Param te = Param te2 \<and> Result te = Result te2"
proof (cases "length (Param te) = length (Param te2) \<and> length (Result te) = length (Result te2)")
  case True
  then have "vals_equal_from 0 (Param te) (Param te2) \<longleftrightarrow> Param te = Param te2"
    and "vals_equal_from 0 (Result te) (Result te2) \<longleftrightarrow> Result te = Result te2"
    using vals_equal_from_iff [of 0 "Param te" "Param te2"]
      vals_equal_from_iff [of 0 "Result te" "Result te2"] by simp_all
  with True show ?thesis by (simp add: Equals_def)
next
  case False
  then show ?thesis by (auto simp: Equals_def)
qed

lemma find_type_Some:
  "find_type k ts te = Some idx \<Longrightarrow>
   k \<le> idx \<and> idx - k < length ts \<and> Equals (ts ! (idx - k)) te
   \<and> (\<forall>j < idx - k. \<not> Equals (ts ! j) te)"
proof (induction ts arbitrary: k)
  case Nil
  then show ?case by simp
next
  case (Cons t ts)
  show ?case
  proof (cases "Equals t te")
    case True
    with Cons.prems show ?thesis by simp
  next
    case False
    with Cons.prems have "find_type (Suc k) ts te = Some idx" by simp
    from Cons.IH [OF this]
    have ih: "Suc k \<le> idx" "idx - Suc k < length ts" "Equals (ts ! (idx - Suc k)) te"
      "\<forall>j < idx - Suc k. \<not> Equals (ts ! j) te" by simp_all
    from ih(1) have e: "idx - k = Suc (idx - Suc k)" by simp
    have "\<forall>j < idx - k. \<not> Equals ((t # ts) ! j) te"
    proof (intro allI impI)
      fix j assume "j < idx - k"
      then show "\<not> Equals ((t # ts) ! j) te"
        using False ih(4) e by (cases j) auto
    qed
    with ih e show ?thesis by simp
  qed
qed

lemma find_type_None:
  "find_type k ts te = None \<longleftrightarrow> (\<forall>t\<in>set ts. \<not> Equals t te)"
  by (induction ts arbitrary: k) auto

lemma find_type_append_self:
  "find_type k ts te = None \<Longrightarrow> find_type k (ts @ [te]) te = Some (k + length ts)"
  by (induction ts arbitrary: k) (auto simp: Equals_iff split: if_splits)

text \<open>
  C5. Interning a type that is structurally equal (same parameter vector, same result
  vector) to an entry already present returns the index of the first such entry and
  leaves the type vector as it was. So interning the same type a second time returns the
  index of the first time and changes nothing, and the first time adds at most one entry,
  at the end of the vector.
\<close>

theorem C5_AddTypeMaybe_idempotent:
  "((\<exists>t\<in>set types. Param t = Param te \<and> Result t = Result te) \<longrightarrow>
      (\<exists>idx < length types. AddTypeMaybe types te = (types, int idx)
         \<and> Param (types ! idx) = Param te \<and> Result (types ! idx) = Result te
         \<and> (\<forall>j<idx. \<not> (Param (types ! j) = Param te \<and> Result (types ! j) = Result te))))
   \<and> (case AddTypeMaybe types te of (types1, idx1) \<Rightarrow>
        AddTypeMaybe types1 te = (types1, idx1)
        \<and> 0 \<le> idx1 \<and> nat idx1 < length types1
        \<and> Param (types1 ! nat idx1) = Param te \<and> Result (types1 ! nat idx1) = Result te
        \<and> (types1 = types \<or> types1 = types @ [te])
        \<and> length types1 \<le> length types + 1)"
proof (cases "find_type 0 types te")
  case None
  then have no: "\<forall>t\<in>set types. \<not> Equals t te" by (simp add: find_type_None)
  have a: "AddTypeMaybe types te = (types @ [te], int (length types))"
    using None by (simp add: AddTypeMaybe_def)
  have b: "AddTypeMaybe (types @ [te]) te = (types @ [te], int (length types))"
    using find_type_append_self [OF None] by (simp add: AddTypeMaybe_def)
  from no have "\<not> (\<exists>t\<in>set types. Param t = Param te \<and> Result t = Result te)"
    by (simp add: Equals_iff)
  with a b show ?thesis by simp
next
  case (Some idx)
  from find_type_Some [OF Some]
  have f: "idx < length types" "Equals (types ! idx) te" "\<forall>j<idx. \<not> Equals (types ! j) te"
    by simp_all
  have a: "AddTypeMaybe types te = (types, int idx)"
    using Some by (simp add: AddTypeMaybe_def)
  with f show ?thesis by (auto simp: Equals_iff)
qed

theorem C5_AddTypeMaybe_witness:
  "AddTypeMaybe [\<lparr>Param = [0x7f], Result = []\<rparr>, \<lparr>Param = [0x7f, 0x7f], Result = [0x7f]\<rparr>]
      \<lparr>Param = [0x7f, 0x7f], Result = [0x7f]\<rparr>
    = ([\<lparr>Param = [0x7f], Result = []\<rparr>, \<lparr>Param = [0x7f, 0x7f], Result = [0x7f]\<rparr>], 1)
   \<and> AddTypeMaybe [\<lparr>Param = [0x7f], Result = []\<rparr>] \<lparr>Param = [0x7f, 0x7f], Result = [0x7f]\<rparr>
    = ([\<lparr>Param = [0x7f], Result = []\<rparr>, \<lparr>Param = [0x7f, 0x7f], Result = [0x7f]\<rparr>], 1)"
  using C5_AddTypeMaybe_idempotent
    [of "[\<lparr>Param = [0x7f], Result = []\<rparr>, \<lparr>Param = [0x7f, 0x7f], Result = [0x7f]\<rparr>]"
        "\<lparr>Param = [0x7f, 0x7f], Result = [0x7f]\<rparr>"]
  by (simp add: AddTypeMaybe_def Equals_def)

subsection \<open>Finding the function of a pc\<close>

lemma FindFunction_from_none:
  "\<forall>c\<in>set cs. \<not> (PCValid c \<and> CodeSectionPtr c \<le> pc \<and> pc \<le> CodeSectionPtr c + CodeSectionLen c)
   \<Longrightarrow> FindFunction_from n k cs pc = -1"
  by (induction cs arbitrary: k) auto

lemma FindFunction_from_first:
  "i < length cs \<Longrightarrow>
   PCValid (cs ! i) \<and> CodeSectionPtr (cs ! i) \<le> pc \<and> pc \<le> CodeSectionPtr (cs ! i) + CodeSectionLen (cs ! i) \<Longrightarrow>
   \<forall>j<i. \<not> (PCValid (cs ! j) \<and> CodeSectionPtr (cs ! j) \<le> pc \<and> pc \<le> CodeSectionPtr (cs ! j) + CodeSectionLen (cs ! j)) \<Longrightarrow>
   FindFunction_from n k cs pc = n + k + int i"
proof (induction cs arbitrary: i k)
  case Nil
  then show ?case by simp
next
  case (Cons c cs)
  show ?case
  proof (cases i)
    case 0
    with Cons.prems show ?thesis by simp
  next
    case (Suc m)
    from Cons.prems(3) Suc
    have miss: "\<not> (PCValid c \<and> CodeSectionPtr c \<le> pc \<and> pc \<le> CodeSectionPtr c + CodeSectionLen c)"
      by (metis nth_Cons_0 zero_less_Suc)
    have rest: "\<forall>j<m. \<not> (PCValid (cs ! j) \<and> CodeSectionPtr (cs ! j) \<le> pc \<and> pc \<le> CodeSectionPtr (cs ! j) + CodeSectionLen (cs ! j))"
    proof (intro allI impI)
      fix j assume "j < m"
      then have "Suc j < i" using Suc by simp
      with Cons.prems(3) show "\<not> (PCValid (cs ! j) \<and> CodeSectionPtr (cs ! j) \<le> pc \<and> pc \<le> CodeSectionPtr (cs ! j) + CodeSectionLen (cs ! j))"
        by (metis nth_Cons_Suc)
    qed
    have "FindFunction_from n (k + 1) cs pc = n + (k + 1) + int m"
      using Cons.IH [of m "k + 1"] Cons.prems(1,2) Suc rest by simp
    with miss Suc show ?thesis by auto
  qed
qed

lemma FindFunction_from_found:
  "FindFunction_from n k cs pc \<noteq> -1 \<Longrightarrow>
   \<exists>c\<in>set cs. PCValid c \<and> CodeSectionPtr c \<le> pc \<and> pc \<le> CodeSectionPtr c + CodeSectionLen c"
  using FindFunction_from_none by blast

text \<open>
  C7. \<open>FindFunction\<close> scans the code entries in order and looks only at those whose
  \<open>PCValid\<close> flag is set. For the first entry whose closed interval from
  \<open>CodeSectionPtr\<close> to \<open>CodeSectionPtr + CodeSectionLen\<close> (the sum as the source computes
  it, on 64-bit unsigned integers) holds the pc, it returns the number of imports plus
  the entry's index; it returns -1 exactly when no entry is one.
\<close>

theorem C7_FindFunction_first_valid_entry:
  "(\<forall>i. i < length (Code wfile)
        \<and> PCValid (Code wfile ! i) \<and> CodeSectionPtr (Code wfile ! i) \<le> pc
        \<and> pc \<le> CodeSectionPtr (Code wfile ! i) + CodeSectionLen (Code wfile ! i)
        \<and> (\<forall>j<i. \<not> (PCValid (Code wfile ! j) \<and> CodeSectionPtr (Code wfile ! j) \<le> pc
                  \<and> pc \<le> CodeSectionPtr (Code wfile ! j) + CodeSectionLen (Code wfile ! j)))
      \<longrightarrow> FindFunction wfile pc = int (length (Import wfile)) + int i)
   \<and> ((\<forall>c\<in>set (Code wfile). \<not> (PCValid c \<and> CodeSectionPtr c \<le> pc
                  \<and> pc \<le> CodeSectionPtr c + CodeSectionLen c))
      \<longleftrightarrow> FindFunction wfile pc = -1)"
proof (intro conjI allI impI iffI)
  fix i
  assume a: "i < length (Code wfile)
        \<and> PCValid (Code wfile ! i) \<and> CodeSectionPtr (Code wfile ! i) \<le> pc
        \<and> pc \<le> CodeSectionPtr (Code wfile ! i) + CodeSectionLen (Code wfile ! i)
        \<and> (\<forall>j<i. \<not> (PCValid (Code wfile ! j) \<and> CodeSectionPtr (Code wfile ! j) \<le> pc
                  \<and> pc \<le> CodeSectionPtr (Code wfile ! j) + CodeSectionLen (Code wfile ! j)))"
  then show "FindFunction wfile pc = int (length (Import wfile)) + int i"
    unfolding FindFunction_def
    using FindFunction_from_first [of i "Code wfile" pc "int (length (Import wfile))" 0] by simp
next
  assume "\<forall>c\<in>set (Code wfile). \<not> (PCValid c \<and> CodeSectionPtr c \<le> pc
                  \<and> pc \<le> CodeSectionPtr c + CodeSectionLen c)"
  then show "FindFunction wfile pc = -1"
    unfolding FindFunction_def by (rule FindFunction_from_none)
next
  assume r: "FindFunction wfile pc = -1"
  show "\<forall>c\<in>set (Code wfile). \<not> (PCValid c \<and> CodeSectionPtr c \<le> pc
                  \<and> pc \<le> CodeSectionPtr c + CodeSectionLen c)"
  proof (rule ccontr)
    assume "\<not> (\<forall>c\<in>set (Code wfile). \<not> (PCValid c \<and> CodeSectionPtr c \<le> pc
                  \<and> pc \<le> CodeSectionPtr c + CodeSectionLen c))"
    then obtain c where c: "c \<in> set (Code wfile)" "PCValid c \<and> CodeSectionPtr c \<le> pc
                  \<and> pc \<le> CodeSectionPtr c + CodeSectionLen c" by blast
    define P where "P = (\<lambda>i. i < length (Code wfile) \<and> PCValid (Code wfile ! i) \<and> CodeSectionPtr (Code wfile ! i) \<le> pc
        \<and> pc \<le> CodeSectionPtr (Code wfile ! i) + CodeSectionLen (Code wfile ! i))"
    from c obtain i0 where "P i0" unfolding P_def by (metis in_set_conv_nth)
    define i where "i = (LEAST i. P i)"
    have Pi: "P i" unfolding i_def using \<open>P i0\<close> by (rule LeastI)
    have least: "\<forall>j<i. \<not> P j" unfolding i_def using not_less_Least by blast
    have lt: "i < length (Code wfile)" using Pi unfolding P_def by simp
    have "FindFunction_from (int (length (Import wfile))) 0 (Code wfile) pc = int (length (Import wfile)) + 0 + int i"
    proof (rule FindFunction_from_first [OF lt])
      show "PCValid (Code wfile ! i) \<and> CodeSectionPtr (Code wfile ! i) \<le> pc \<and> pc \<le> CodeSectionPtr (Code wfile ! i) + CodeSectionLen (Code wfile ! i)"
        using Pi unfolding P_def by simp
      show "\<forall>j<i. \<not> (PCValid (Code wfile ! j) \<and> CodeSectionPtr (Code wfile ! j) \<le> pc \<and> pc \<le> CodeSectionPtr (Code wfile ! j) + CodeSectionLen (Code wfile ! j))"
        using least lt unfolding P_def by auto
    qed
    with r show False unfolding FindFunction_def by simp
  qed
qed

theorem C7_FindFunction_witness:
  "FindFunction
     \<lparr>Type = [], Export = [],
      Import = [\<lparr>Module = ''env'', ImportName = ''a'', ImportType = 0, ImportIndex = 0\<rparr>,
                \<lparr>Module = ''env'', ImportName = ''b'', ImportType = 0, ImportIndex = 0\<rparr>],
      Code = [\<lparr>Locals = [], PCValid = False, CodeSectionPtr = 10, CodeSectionLen = 5, Expression = []\<rparr>,
              \<lparr>Locals = [], PCValid = True, CodeSectionPtr = 10, CodeSectionLen = 5, Expression = []\<rparr>,
              \<lparr>Locals = [], PCValid = True, CodeSectionPtr = 15, CodeSectionLen = 9, Expression = []\<rparr>],
      Data = [], Elem = [], functionDebug = Map.empty, functionSignature = Map.empty,
      FunctionNames = Map.empty, dataNames = Map.empty\<rparr> 15 = 3
   \<and> FindFunction
     \<lparr>Type = [], Export = [],
      Import = [\<lparr>Module = ''env'', ImportName = ''a'', ImportType = 0, ImportIndex = 0\<rparr>,
                \<lparr>Module = ''env'', ImportName = ''b'', ImportType = 0, ImportIndex = 0\<rparr>],
      Code = [\<lparr>Locals = [], PCValid = False, CodeSectionPtr = 10, CodeSectionLen = 5, Expression = []\<rparr>,
              \<lparr>Locals = [], PCValid = True, CodeSectionPtr = 10, CodeSectionLen = 5, Expression = []\<rparr>,
              \<lparr>Locals = [], PCValid = True, CodeSectionPtr = 15, CodeSectionLen = 9, Expression = []\<rparr>],
      Data = [], Elem = [], functionDebug = Map.empty, functionSignature = Map.empty,
      FunctionNames = Map.empty, dataNames = Map.empty\<rparr> 25 = -1"
  using C7_FindFunction_first_valid_entry
    [of "\<lparr>Type = [], Export = [],
      Import = [\<lparr>Module = ''env'', ImportName = ''a'', ImportType = 0, ImportIndex = 0\<rparr>,
                \<lparr>Module = ''env'', ImportName = ''b'', ImportType = 0, ImportIndex = 0\<rparr>],
      Code = [\<lparr>Locals = [], PCValid = False, CodeSectionPtr = 10, CodeSectionLen = 5, Expression = []\<rparr>,
              \<lparr>Locals = [], PCValid = True, CodeSectionPtr = 10, CodeSectionLen = 5, Expression = []\<rparr>,
              \<lparr>Locals = [], PCValid = True, CodeSectionPtr = 15, CodeSectionLen = 9, Expression = []\<rparr>],
      Data = [], Elem = [], functionDebug = Map.empty, functionSignature = Map.empty,
      FunctionNames = Map.empty, dataNames = Map.empty\<rparr>" 15]
   C7_FindFunction_first_valid_entry
    [of "\<lparr>Type = [], Export = [],
      Import = [\<lparr>Module = ''env'', ImportName = ''a'', ImportType = 0, ImportIndex = 0\<rparr>,
                \<lparr>Module = ''env'', ImportName = ''b'', ImportType = 0, ImportIndex = 0\<rparr>],
      Code = [\<lparr>Locals = [], PCValid = False, CodeSectionPtr = 10, CodeSectionLen = 5, Expression = []\<rparr>,
              \<lparr>Locals = [], PCValid = True, CodeSectionPtr = 10, CodeSectionLen = 5, Expression = []\<rparr>,
              \<lparr>Locals = [], PCValid = True, CodeSectionPtr = 15, CodeSectionLen = 9, Expression = []\<rparr>],
      Data = [], Elem = [], functionDebug = Map.empty, functionSignature = Map.empty,
      FunctionNames = Map.empty, dataNames = Map.empty\<rparr>" 25]
  by (simp add: FindFunction_def)

subsection \<open>Renumbering the side tables\<close>

text \<open>The three tables go through the loop independently of each other.\<close>

lemma renumber_loop_fold:
  "renumber_loop remap wfile (a, b, c) =
     (fold (\<lambda>(old, new). move_entry (FunctionNames wfile) old new) remap a,
      fold (\<lambda>(old, new). move_entry (functionDebug wfile) old new) remap b,
      fold (\<lambda>(old, new). move_entry (functionSignature wfile) old new) remap c)"
  by (induction remap arbitrary: a b c) auto

lemma fold_move_entry_notin:
  "k \<notin> snd ` set remap \<Longrightarrow> fold (\<lambda>(old, new). move_entry src old new) remap a k = a k"
  by (induction remap arbitrary: a) (auto simp: move_entry_def split: option.splits)

lemma fold_move_entry_distinct:
  "distinct (map snd remap) \<Longrightarrow>
   fold (\<lambda>(old, new). move_entry src old new) remap a k = Some v \<longleftrightarrow>
     (\<exists>old. (old, k) \<in> set remap \<and> src old = Some v)
     \<or> ((\<forall>old. (old, k) \<in> set remap \<longrightarrow> src old = None) \<and> a k = Some v)"
proof (induction remap arbitrary: a)
  case Nil
  then show ?case by simp
next
  case (Cons p remap)
  obtain old new where p: "p = (old, new)" by (cases p)
  from Cons.prems p have d: "distinct (map snd remap)" and nin: "new \<notin> snd ` set remap" by auto
  let ?a' = "move_entry src old new a"
  have step: "fold (\<lambda>(old, new). move_entry src old new) (p # remap) a k
      = fold (\<lambda>(old, new). move_entry src old new) remap ?a' k"
    using p by simp
  show ?case
  proof (cases "k = new")
    case True
    with nin have r: "fold (\<lambda>(old, new). move_entry src old new) remap ?a' k = ?a' k"
      by (simp add: fold_move_entry_notin)
    have ak: "?a' k = (case src old of Some w \<Rightarrow> Some w | None \<Rightarrow> a k)"
      using True by (simp add: move_entry_def split: option.splits)
    have noin: "\<And>o'. (o', k) \<notin> set remap" using nin True by force
    have "fold (\<lambda>(old, new). move_entry src old new) (p # remap) a k
        = (case src old of Some w \<Rightarrow> Some w | None \<Rightarrow> a k)"
      using step r ak by simp
    moreover have "\<And>o'. (o', k) \<in> set (p # remap) \<longleftrightarrow> o' = old"
      using noin p True by auto
    ultimately show ?thesis
      by (cases "src old") auto
  next
    case False
    then have "?a' k = a k" by (simp add: move_entry_def split: option.splits)
    with Cons.IH [OF d, of ?a'] step p False show ?thesis by auto
  qed
qed

text \<open>
  C6 (amended). When the remap sends no two old indices to the same new index, then in
  each of the three tables, for every pair old \<open>\<rightarrow>\<close> new of the remap, an entry present at
  key old stands at key new afterwards, and the old indices are removed: a key holds a
  value afterwards only as the new index of a pair whose old index held that value. This
  is so whatever order the pairs are visited in.
\<close>

theorem C6_Renumber_functions_injective_remap:
  assumes "distinct (map snd remap)"
  shows "((old, new) \<in> set remap \<and> FunctionNames wfile old = Some v
            \<longrightarrow> FunctionNames (Renumber_functions remap wfile) new = Some v)
       \<and> ((old, new) \<in> set remap \<and> functionDebug wfile old = Some v
            \<longrightarrow> functionDebug (Renumber_functions remap wfile) new = Some v)
       \<and> ((old, new) \<in> set remap \<and> functionSignature wfile old = Some v
            \<longrightarrow> functionSignature (Renumber_functions remap wfile) new = Some v)
       \<and> (FunctionNames (Renumber_functions remap wfile) k = Some v
            \<longleftrightarrow> (\<exists>old. (old, k) \<in> set remap \<and> FunctionNames wfile old = Some v))
       \<and> (functionDebug (Renumber_functions remap wfile) k = Some v
            \<longleftrightarrow> (\<exists>old. (old, k) \<in> set remap \<and> functionDebug wfile old = Some v))
       \<and> (functionSignature (Renumber_functions remap wfile) k = Some v
            \<longleftrightarrow> (\<exists>old. (old, k) \<in> set remap \<and> functionSignature wfile old = Some v))"
proof -
  have tables:
    "FunctionNames (Renumber_functions remap wfile) k = Some v
       \<longleftrightarrow> (\<exists>old. (old, k) \<in> set remap \<and> FunctionNames wfile old = Some v)"
    "functionDebug (Renumber_functions remap wfile) k = Some v
       \<longleftrightarrow> (\<exists>old. (old, k) \<in> set remap \<and> functionDebug wfile old = Some v)"
    "functionSignature (Renumber_functions remap wfile) k = Some v
       \<longleftrightarrow> (\<exists>old. (old, k) \<in> set remap \<and> functionSignature wfile old = Some v)"
    for k v
    using assms
    by (simp_all add: Renumber_functions_def renumber_loop_fold fold_move_entry_distinct)
  show ?thesis
    unfolding tables by blast
qed

theorem C6_Renumber_functions_witness:
  "FunctionNames (Renumber_functions [(3, 4), (4, 5)]
      \<lparr>Type = [], Export = [], Import = [], Code = [], Data = [], Elem = [],
       functionDebug = Map.empty, functionSignature = Map.empty,
       FunctionNames = [3 \<mapsto> ''main'', 4 \<mapsto> ''aux''], dataNames = Map.empty\<rparr>)
     = [4 \<mapsto> ''main'', 5 \<mapsto> ''aux'']
   \<and> FunctionNames (Renumber_functions [(4, 5), (3, 4)]
      \<lparr>Type = [], Export = [], Import = [], Code = [], Data = [], Elem = [],
       functionDebug = Map.empty, functionSignature = Map.empty,
       FunctionNames = [3 \<mapsto> ''main'', 4 \<mapsto> ''aux''], dataNames = Map.empty\<rparr>)
     = [4 \<mapsto> ''main'', 5 \<mapsto> ''aux'']"
proof -
  define host where "host =
      \<lparr>Type = [], Export = [], Import = [], Code = [], Data = [], Elem = [],
       functionDebug = Map.empty, functionSignature = Map.empty,
       FunctionNames = [3 \<mapsto> ''main'', 4 \<mapsto> ''aux''], dataNames = Map.empty\<rparr>"
  have moved: "m = [4 \<mapsto> ''main'', 5 \<mapsto> ''aux'']"
    if "\<And>k v. m k = Some v \<longleftrightarrow> (k = 4 \<and> v = ''main'') \<or> (k = 5 \<and> v = ''aux'')"
    for m :: "int \<rightharpoonup> string"
  proof (rule ext)
    fix k
    show "m k = [4 \<mapsto> ''main'', 5 \<mapsto> ''aux''] k"
    proof (cases "m k")
      case None
      with that [of k "''main''"] that [of k "''aux''"] show ?thesis
        by (cases "k = 4"; cases "k = 5") simp_all
    next
      case (Some v)
      with that [of k v] show ?thesis by (cases "k = 4"; cases "k = 5") simp_all
    qed
  qed
  have a: "FunctionNames (Renumber_functions [(3, 4), (4, 5)] host) k = Some v
      \<longleftrightarrow> (k = 4 \<and> v = ''main'') \<or> (k = 5 \<and> v = ''aux'')" for k v
    using C6_Renumber_functions_injective_remap
      [where remap = "[(3, 4), (4, 5)]" and wfile = host and k = k and v = v
         and old = 3 and new = 4]
    unfolding host_def by (simp add: conj_disj_distribR ex_disj_distrib eq_commute [of v])
  have b: "FunctionNames (Renumber_functions [(4, 5), (3, 4)] host) k = Some v
      \<longleftrightarrow> (k = 4 \<and> v = ''main'') \<or> (k = 5 \<and> v = ''aux'')" for k v
    using C6_Renumber_functions_injective_remap
      [where remap = "[(4, 5), (3, 4)]" and wfile = host and k = k and v = v
         and old = 3 and new = 4]
    unfolding host_def
    by (simp add: conj_disj_distribR ex_disj_distrib eq_commute [of v] disj_commute)
  from moved [OF a] moved [OF b] show ?thesis
    unfolding host_def by (intro conjI)
qed

text \<open>
  C6 as stated fails when two old indices go to the same new index. With the remap
  \<open>{1:5, 2:5}\<close> and names \<open>{1:"a", 2:"b"}\<close> the pair visited first loses its entry: after the
  visit in the order 1, 2 the entry \<open>"a"\<close> of old index 1 is not at 5, and in the order 2, 1
  the entry \<open>"b"\<close> of old index 2 is not.
\<close>

theorem C6_Renumber_functions_counterexample:
  "FunctionNames (Renumber_functions [(1, 5), (2, 5)]
      \<lparr>Type = [], Export = [], Import = [], Code = [], Data = [], Elem = [],
       functionDebug = Map.empty, functionSignature = Map.empty,
       FunctionNames = [1 \<mapsto> ''a'', 2 \<mapsto> ''b''], dataNames = Map.empty\<rparr>) 5 = Some ''b''
   \<and> FunctionNames (Renumber_functions [(2, 5), (1, 5)]
      \<lparr>Type = [], Export = [], Import = [], Code = [], Data = [], Elem = [],
       functionDebug = Map.empty, functionSignature = Map.empty,
       FunctionNames = [1 \<mapsto> ''a'', 2 \<mapsto> ''b''], dataNames = Map.empty\<rparr>) 5 = Some ''a''"
  by (simp add: Renumber_functions_def move_entry_def)

subsection \<open>Splicing after relocating instructions\<close>

lemma insert_after_loop_concat:
  "insert_after_loop newex acc es =
     acc @ concat (map (\<lambda>e. if DataOffsetNeedsLinking e then e # newex else [e]) es)"
  by (induction es arbitrary: acc) auto

lemma subseq_concat_splice:
  "subseq es (concat (map (\<lambda>e. if P e then e # newex else [e]) es))"
proof (induction es)
  case Nil
  then show ?case by simp
next
  case (Cons e es)
  have "subseq es (newex @ concat (map (\<lambda>e. if P e then e # newex else [e]) es))"
    using Cons by (rule list_emb_append2)
  with Cons show ?case by simp
qed

lemma length_concat_splice:
  "length (concat (map (\<lambda>e. if P e then e # newex else [e]) es))
     = length es + length (filter P es) * length newex"
  by (induction es) auto

text \<open>
  C4. When the snippet decodes to \<open>newex\<close>, the body afterwards is the old body with
  \<open>newex\<close> put in right after each instruction whose \<open>DataOffsetNeedsLinking\<close> flag is set:
  every old instruction is kept as it was and in its old place relative to the others
  (the old body is a subsequence of the new one, which is longer by one snippet for each
  flagged instruction), and a body with no flagged instruction is left as it is. When
  the snippet does not decode, the error is returned and the body is untouched.
\<close>

theorem C4_InsertAfterRelocating_splices:
  "(case ExpressionFromWat Whitespace DecodeWat to of
      (newex, None) \<Rightarrow>
        InsertAfterRelocating Whitespace DecodeWat to ce =
          (ce\<lparr>Expression :=
                concat (map (\<lambda>e. if DataOffsetNeedsLinking e then e # newex else [e])
                         (Expression ce))\<rparr>, None)
        \<and> subseq (Expression ce) (Expression (fst (InsertAfterRelocating Whitespace DecodeWat to ce)))
        \<and> length (Expression (fst (InsertAfterRelocating Whitespace DecodeWat to ce)))
            = length (Expression ce)
              + length (filter DataOffsetNeedsLinking (Expression ce)) * length newex
        \<and> (filter DataOffsetNeedsLinking (Expression ce) = []
             \<longrightarrow> fst (InsertAfterRelocating Whitespace DecodeWat to ce) = ce)
    | (newex, Some err) \<Rightarrow>
        InsertAfterRelocating Whitespace DecodeWat to ce = (ce, Some err))"
proof (cases "ExpressionFromWat Whitespace DecodeWat to")
  case (Pair newex r)
  show ?thesis
  proof (cases r)
    case None
    have unchanged: "filter DataOffsetNeedsLinking es = [] \<Longrightarrow>
        concat (map (\<lambda>e. if DataOffsetNeedsLinking e then e # newex else [e]) es) = es" for es
      by (induction es) (auto split: if_splits)
    from Pair None show ?thesis
      by (simp add: InsertAfterRelocating_def insert_after_loop_concat subseq_concat_splice
          length_concat_splice unchanged)
  next
    case (Some err)
    with Pair show ?thesis by (simp add: InsertAfterRelocating_def)
  qed
qed

theorem C4_InsertAfterRelocating_witness:
  "InsertAfterRelocating '' '' sample_DecodeWat (''global.get $base'' @ [CHR 0x0A] @ ''  i32.add ;; add'')
     \<lparr>Locals = [], PCValid = False, CodeSectionPtr = 0, CodeSectionLen = 0,
      Expression = [zero_Expression\<lparr>Opcode := 0x41, DataOffsetNeedsLinking := True, I32DataId := ''$D0''\<rparr>,
                    zero_Expression\<lparr>Opcode := 0x0B\<rparr>]\<rparr>
   = (\<lparr>Locals = [], PCValid = False, CodeSectionPtr = 0, CodeSectionLen = 0,
      Expression = [zero_Expression\<lparr>Opcode := 0x41, DataOffsetNeedsLinking := True, I32DataId := ''$D0''\<rparr>,
                    zero_Expression\<lparr>Opcode := 0x23, GlobalNeedsLinking := True, GlobalId := ''$base''\<rparr>,
                    zero_Expression\<lparr>Opcode := 0x6A\<rparr>,
                    zero_Expression\<lparr>Opcode := 0x0B\<rparr>]\<rparr>, None)"
  using C4_InsertAfterRelocating_splices
    [of "'' ''" sample_DecodeWat "''global.get $base'' @ [CHR 0x0A] @ ''  i32.add ;; add''"
        "\<lparr>Locals = [], PCValid = False, CodeSectionPtr = 0, CodeSectionLen = 0,
      Expression = [zero_Expression\<lparr>Opcode := 0x41, DataOffsetNeedsLinking := True, I32DataId := ''$D0''\<rparr>,
                    zero_Expression\<lparr>Opcode := 0x0B\<rparr>]\<rparr>"]
  by (simp add: ExpressionFromWat_def sample_DecodeWat_def Trim_def zero_Expression_def)

subsection \<open>The binary encoder and the late-binding flags\<close>

lemma on_success_None [simp]: "on_success (w, None) continue = continue w"
  by (simp add: on_success_def)

lemma writeUvarint_buffer [simp]: "writeUvarint buffer_Write buf x = (buf @ uleb128 x, None)"
  by (simp add: writeUvarint_def buffer_Write_def)

lemma writeVarint_buffer [simp]: "writeVarint buffer_Write buf x = (buf @ sleb128 x, None)"
  by (simp add: writeVarint_def buffer_Write_def)

lemma write_labels_buffer [simp]:
  "write_labels buffer_Write buf ls = (buf @ concat (map (\<lambda>l. uleb128 (uint64_of_int l)) ls), None)"
  by (induction ls arbitrary: buf) simp_all











































subsection \<open>Walking a location list\<close>


lemma Uint32_AppendUint32: "Uint32 (AppendUint32 w @ r) = w"
proof -
  let ?x = "(ucast (ucast w :: byte) OR push_bit 8 (ucast (ucast (drop_bit 8 w) :: byte))
        OR push_bit 16 (ucast (ucast (drop_bit 16 w) :: byte))
        OR push_bit 24 (ucast (ucast (drop_bit 24 w) :: byte))) :: u32"
  have "?x = w"
  proof (rule bit_word_eqI)
    fix n assume "n < LENGTH(32)"
    then have n: "n < 32" by simp
    consider "n < 8" | "8 \<le> n \<and> n < 16" | "16 \<le> n \<and> n < 24" | "24 \<le> n \<and> n < 32"
      using n by linarith
    then show "bit ?x n = bit w n"
      by cases (auto simp: bit_simps)
  qed
  then show ?thesis by (simp add: Uint32_def AppendUint32_def)
qed

lemma Uint16_bytes:
  "n < 65536 \<Longrightarrow> unat (Uint16 ([of_nat n, of_nat (n div 256)] @ r)) = n"
proof -
  assume n: "n < 65536"
  let ?x = "((ucast (of_nat n :: byte) :: u16) OR push_bit 8 (ucast (of_nat (n div 256) :: byte))) :: u16"
  have d: "n div 256 = drop_bit 8 n" by (simp add: drop_bit_eq_div)
  have "?x = of_nat n"
  proof (rule bit_word_eqI)
    fix k assume "k < LENGTH(16)"
    then have k: "k < 16" by simp
    consider "k < 8" | "8 \<le> k \<and> k < 16" using k by linarith
    then show "bit ?x k = bit (of_nat n :: u16) k"
    proof cases
      case 1
      then show ?thesis by (auto simp: bit_simps bit_of_nat_iff)
    next
      case 2
      then have e: "8 + (k - 8) = k" by simp
      have "bit (n div 256) (k - 8) = bit n k"
        unfolding d by (simp add: bit_drop_bit_eq e)
      with 2 show ?thesis
        by (auto simp: bit_simps bit_of_nat_iff)
    qed
  qed
  then have "Uint16 ([of_nat n, of_nat (n div 256)] @ r) = of_nat n"
    by (simp add: Uint16_def)
  then show ?thesis using n by (simp add: unat_of_nat)
qed


text \<open>The three ways a round of the walk can go, on any buffer.\<close>

lemma ReadLocation_loop_stop:
  assumes "ptr + 8 \<le> length buf" "Uint32 (drop ptr buf) = 0" "Uint32 (drop (ptr + 4) buf) = 0"
  shows "ReadLocation_loop buf ptr base ld = Inr ld"
  by (subst ReadLocation_loop.simps) (use assms in simp)

lemma ReadLocation_loop_select:
  assumes "ptr + 8 \<le> length buf" "Uint32 (drop ptr buf) = 0xffffffff"
  shows "ReadLocation_loop buf ptr base ld
       = ReadLocation_loop buf (ptr + 8) (Uint32 (drop (ptr + 4) buf)) ld"
  by (subst ReadLocation_loop.simps) (use assms in simp)

lemma ReadLocation_loop_record:
  assumes "ptr + 10 + unat (Uint16 (drop (ptr + 8) buf)) \<le> length buf"
    and "Uint32 (drop ptr buf) \<noteq> 0xffffffff"
    and "Uint32 (drop ptr buf) \<noteq> 0 \<or> Uint32 (drop (ptr + 4) buf) \<noteq> 0"
  shows "ReadLocation_loop buf ptr base ld
       = ReadLocation_loop buf (ptr + 10 + unat (Uint16 (drop (ptr + 8) buf))) base
           (ld @ [\<lparr>startAddress = base + Uint32 (drop ptr buf),
                    endAddress = base + Uint32 (drop (ptr + 4) buf),
                    expression = take (unat (Uint16 (drop (ptr + 8) buf))) (drop (ptr + 10) buf)\<rparr>])"
  by (subst ReadLocation_loop.simps) (use assms in auto)

text \<open>The same rounds on a buffer that holds the layout of an item at the pointer.\<close>

lemma length_AppendUint32: "length (AppendUint32 w) = 4"
  by (simp add: AppendUint32_def)

lemma ReadLocation_loop_entry:
  assumes "low \<noteq> 0xffffffff" "low \<noteq> 0 \<or> high \<noteq> 0" "length expr < 65536"
  shows "ReadLocation_loop (pre @ loc_item_bytes (LocEntry low high expr) @ rest) (length pre) base ld
       = ReadLocation_loop ((pre @ loc_item_bytes (LocEntry low high expr)) @ rest)
           (length (pre @ loc_item_bytes (LocEntry low high expr))) base
           (ld @ [\<lparr>startAddress = base + low, endAddress = base + high, expression = expr\<rparr>])"
proof -
  define buf where "buf = pre @ loc_item_bytes (LocEntry low high expr) @ rest"
  let ?tail = "[of_nat (length expr), of_nat (length expr div 256)] @ expr @ rest"
  have d0: "drop (length pre) buf = AppendUint32 low @ AppendUint32 high @ ?tail"
    by (simp add: buf_def)
  have d4: "drop (length pre + 4) buf = AppendUint32 high @ ?tail"
    by (simp add: buf_def drop_append length_AppendUint32)
  have d8: "drop (length pre + 8) buf = ?tail"
    by (simp add: buf_def drop_append length_AppendUint32)
  have d10: "drop (length pre + 10) buf = expr @ rest"
    by (simp add: buf_def drop_append length_AppendUint32)
  have lo: "Uint32 (drop (length pre) buf) = low"
    unfolding d0 by (rule Uint32_AppendUint32)
  have hi: "Uint32 (drop (length pre + 4) buf) = high"
    unfolding d4 by (rule Uint32_AppendUint32)
  have el: "unat (Uint16 (drop (length pre + 8) buf)) = length expr"
    unfolding d8 using assms(3) by (rule Uint16_bytes)
  have len: "length buf = length pre + 10 + length expr + length rest"
    by (simp add: buf_def length_AppendUint32)
  have "ReadLocation_loop buf (length pre) base ld
      = ReadLocation_loop buf (length pre + 10 + length expr) base
          (ld @ [\<lparr>startAddress = base + low, endAddress = base + high, expression = expr\<rparr>])"
    using ReadLocation_loop_record [of "length pre" buf base ld] assms(1,2)
    by (simp add: lo hi el d10 len)
  moreover have "length (pre @ loc_item_bytes (LocEntry low high expr)) = length pre + 10 + length expr"
    by (simp add: length_AppendUint32)
  ultimately show ?thesis by (simp add: buf_def length_AppendUint32 add.assoc)
qed

lemma ReadLocation_loop_base:
  "ReadLocation_loop (pre @ loc_item_bytes (BaseSelect high) @ rest) (length pre) base ld
     = ReadLocation_loop ((pre @ loc_item_bytes (BaseSelect high)) @ rest)
         (length (pre @ loc_item_bytes (BaseSelect high))) high ld"
proof -
  define buf where "buf = pre @ loc_item_bytes (BaseSelect high) @ rest"
  have d0: "drop (length pre) buf = AppendUint32 0xffffffff @ AppendUint32 high @ rest"
    by (simp add: buf_def)
  have d4: "drop (length pre + 4) buf = AppendUint32 high @ rest"
    by (simp add: buf_def drop_append length_AppendUint32)
  have lo: "Uint32 (drop (length pre) buf) = 0xffffffff"
    unfolding d0 by (rule Uint32_AppendUint32)
  have hi: "Uint32 (drop (length pre + 4) buf) = high"
    unfolding d4 by (rule Uint32_AppendUint32)
  have len: "length buf = length pre + 8 + length rest"
    by (simp add: buf_def length_AppendUint32)
  have "ReadLocation_loop buf (length pre) base ld = ReadLocation_loop buf (length pre + 8) high ld"
    using ReadLocation_loop_select [of "length pre" buf base ld] by (simp add: lo hi len)
  moreover have "length (pre @ loc_item_bytes (BaseSelect high)) = length pre + 8"
    by (simp add: length_AppendUint32)
  ultimately show ?thesis by (simp add: buf_def length_AppendUint32 add.assoc)
qed

lemma ReadLocation_loop_end:
  "ReadLocation_loop (pre @ AppendUint32 0 @ AppendUint32 0 @ rest) (length pre) base ld = Inr ld"
proof -
  define buf where "buf = pre @ AppendUint32 0 @ AppendUint32 0 @ rest"
  have d0: "drop (length pre) buf = AppendUint32 0 @ AppendUint32 0 @ rest"
    by (simp add: buf_def)
  have d4: "drop (length pre + 4) buf = AppendUint32 0 @ rest"
    by (simp add: buf_def drop_append length_AppendUint32)
  have lo: "Uint32 (drop (length pre) buf) = 0"
    unfolding d0 by (rule Uint32_AppendUint32)
  have hi: "Uint32 (drop (length pre + 4) buf) = 0"
    unfolding d4 by (rule Uint32_AppendUint32)
  have len: "length buf = length pre + 8 + length rest"
    by (simp add: buf_def length_AppendUint32)
  have "ReadLocation_loop buf (length pre) base ld = Inr ld"
    using ReadLocation_loop_stop [of "length pre" buf base ld] by (simp add: lo hi len)
  then show ?thesis by (simp add: buf_def)
qed

lemma ReadLocation_loop_items:
  "\<forall>it\<in>set items. loc_item_ok it \<Longrightarrow>
   ReadLocation_loop (pre @ concat (map loc_item_bytes items) @ AppendUint32 0 @ AppendUint32 0 @ post)
       (length pre) base ld
     = Inr (ld @ loc_records base items)"
proof (induction items arbitrary: pre base ld)
  case Nil
  then show ?case using ReadLocation_loop_end [of pre post base ld] by simp
next
  case (Cons it items)
  let ?rest = "concat (map loc_item_bytes items) @ AppendUint32 0 @ AppendUint32 0 @ post"
  have ok: "\<forall>it\<in>set items. loc_item_ok it" and ok1: "loc_item_ok it" using Cons.prems by simp_all
  have buf: "pre @ concat (map loc_item_bytes (it # items)) @ AppendUint32 0 @ AppendUint32 0 @ post
      = pre @ loc_item_bytes it @ ?rest" by simp
  show ?case
  proof (cases it)
    case (LocEntry low high expr)
    with ok1 have c: "low \<noteq> 0xffffffff" "low \<noteq> 0 \<or> high \<noteq> 0" "length expr < 65536" by simp_all
    have "ReadLocation_loop (pre @ loc_item_bytes it @ ?rest) (length pre) base ld
        = Inr ((ld @ [\<lparr>startAddress = base + low, endAddress = base + high, expression = expr\<rparr>])
                 @ loc_records base items)"
      unfolding LocEntry ReadLocation_loop_entry [OF c] by (rule Cons.IH [OF ok])
    then show ?thesis unfolding buf using LocEntry by simp
  next
    case (BaseSelect high)
    have "ReadLocation_loop (pre @ loc_item_bytes it @ ?rest) (length pre) base ld
        = Inr (ld @ loc_records high items)"
      unfolding BaseSelect ReadLocation_loop_base by (rule Cons.IH [OF ok])
    then show ?thesis unfolding buf using BaseSelect by simp
  qed
qed


text \<open>
  C8. On a buffer that holds, at the offset, the layout of a location list (entries
  \<open>(low, high, expr_len, expr_bytes)\<close> and base-address selections, none of the entries a
  double zero and none with \<open>low = 0xFFFFFFFF\<close>, closed by a double zero), the walk returns
  without a panic, stops at the double zero whatever follows it, makes no record for a
  selection but takes its \<open>high\<close> as the base address from there on, and makes for every
  other entry, in order, the record with start \<open>base + low\<close>, end \<open>base + high\<close> and the
  \<open>expr_len\<close> expression bytes.
\<close>

theorem C8_ReadLocation_walks_location_list:
  "\<forall>it\<in>set items. loc_item_ok it \<Longrightarrow>
   ReadLocation (pre @ loc_bytes items @ post) (length pre) = Inr (loc_records 0 items)"
  using ReadLocation_loop_items [of items pre post 0 "[]"]
  by (simp add: ReadLocation_def loc_bytes_def)

theorem C8_ReadLocation_witness:
  "ReadLocation
     [0xAA,
      0xFF, 0xFF, 0xFF, 0xFF, 0x00, 0x10, 0x00, 0x00,
      0x04, 0x00, 0x00, 0x00, 0x08, 0x00, 0x00, 0x00, 0x03, 0x00, 0xED, 0x00, 0x01,
      0x00, 0x00, 0x00, 0x00, 0x00, 0x00, 0x00, 0x00,
      0x77] 1
   = Inr [\<lparr>startAddress = 0x1004, endAddress = 0x1008, expression = [0xED, 0x00, 0x01]\<rparr>]"
proof -
  have b: "(4294967295 :: byte) = 255" "(16777215 :: byte) = 255" "(65535 :: byte) = 255"
    "(4096 :: byte) = 0"
    by simp_all
  show ?thesis
    using C8_ReadLocation_walks_location_list
      [of "[BaseSelect 0x1000, LocEntry 4 8 [0xED, 0x00, 0x01]]" "[0xAA]" "[0x77]"]
    by (simp add: loc_bytes_def AppendUint32_def b)
qed

subsection \<open>Resolving data offsets\<close>

lemma ResolveRelocations_all:
  assumes "\<forall>e\<in>set es. DataOffsetNeedsLinking e \<longrightarrow>
             resolvable lk data e \<and> 0 \<le> lk (I32DataId e) \<and> lk (I32DataId e) < int (length data)"
  shows "ResolveRelocations lk data bp es = (map (relocated lk data bp) es, None)"
  using assms
  by (induction es) (auto simp: resolvable_def relocated_def)

lemma ResolveRelocations_first_failure:
  assumes "i < length es"
    and "DataOffsetNeedsLinking (es ! i)" "\<not> resolvable lk data (es ! i)"
    and "lk (I32DataId (es ! i)) = -1
         \<or> (0 \<le> lk (I32DataId (es ! i)) \<and> lk (I32DataId (es ! i)) < int (length data))"
    and "\<forall>j<i. DataOffsetNeedsLinking (es ! j) \<longrightarrow>
           resolvable lk data (es ! j)
           \<and> 0 \<le> lk (I32DataId (es ! j)) \<and> lk (I32DataId (es ! j)) < int (length data)"
  shows "ResolveRelocations lk data bp es =
           (map (relocated lk data bp) (take i es) @ drop i es,
            Some (if lk (I32DataId (es ! i)) = -1 then DataNotFound (I32DataId (es ! i))
                  else NonConstantDataOffset))"
  using assms
proof (induction es arbitrary: i)
  case Nil
  then show ?case by simp
next
  case (Cons e es)
  show ?case
  proof (cases i)
    case 0
    with Cons.prems(2,3,4) show ?thesis
      by (auto simp: resolvable_def)
  next
    case (Suc k)
    have k: "k < length es" using Cons.prems(1) Suc by simp
    have head: "DataOffsetNeedsLinking e \<longrightarrow>
           resolvable lk data e \<and> 0 \<le> lk (I32DataId e) \<and> lk (I32DataId e) < int (length data)"
      using Cons.prems(5) Suc by (metis nth_Cons_0 zero_less_Suc)
    have rest: "\<forall>j<k. DataOffsetNeedsLinking (es ! j) \<longrightarrow>
           resolvable lk data (es ! j)
           \<and> 0 \<le> lk (I32DataId (es ! j)) \<and> lk (I32DataId (es ! j)) < int (length data)"
    proof (intro allI impI)
      fix j assume "j < k" and f: "DataOffsetNeedsLinking (es ! j)"
      then have "Suc j < i" using Suc by simp
      with Cons.prems(5) f show "resolvable lk data (es ! j)
           \<and> 0 \<le> lk (I32DataId (es ! j)) \<and> lk (I32DataId (es ! j)) < int (length data)"
        by (metis nth_Cons_Suc)
    qed
    have ih: "ResolveRelocations lk data bp es =
           (map (relocated lk data bp) (take k es) @ drop k es,
            Some (if lk (I32DataId (es ! k)) = -1 then DataNotFound (I32DataId (es ! k))
                  else NonConstantDataOffset))"
      using Cons.IH [of k] k Cons.prems(2,3,4) Suc rest by simp
    show ?thesis
      using head ih Suc by (auto simp: resolvable_def relocated_def)
  qed
qed


text \<open>
  C3. Let every data name that is looked up give -1 or the index of a data segment. Then
  \<open>ResolveRelocations\<close> returns no error exactly when every expression with the
  \<open>DataOffsetNeedsLinking\<close> flag is resolvable (its name is found and the segment's offset is
  a single \<open>i32.const\<close>); it has then given each flagged expression the segment's constant
  minus the base pointer (in 32-bit arithmetic) and left the others alone. Otherwise it
  returns the error of the first flagged expression that is not resolvable, not found or
  not a constant offset, and that expression and all behind it are as they were: no
  value is made up for it.
\<close>

theorem C3_ResolveRelocations_resolves_or_fails:
  assumes rng: "\<forall>e\<in>set es. DataOffsetNeedsLinking e \<longrightarrow>
                  lk (I32DataId e) = -1
                  \<or> (0 \<le> lk (I32DataId e) \<and> lk (I32DataId e) < int (length data))"
  shows "(snd (ResolveRelocations lk data bp es) = None
            \<longleftrightarrow> (\<forall>e\<in>set es. DataOffsetNeedsLinking e \<longrightarrow> resolvable lk data e))
       \<and> (snd (ResolveRelocations lk data bp es) = None
            \<longrightarrow> fst (ResolveRelocations lk data bp es) = map (relocated lk data bp) es)
       \<and> (snd (ResolveRelocations lk data bp es) \<noteq> None
            \<longrightarrow> (\<exists>i<length es.
                   DataOffsetNeedsLinking (es ! i) \<and> \<not> resolvable lk data (es ! i)
                   \<and> (\<forall>j<i. DataOffsetNeedsLinking (es ! j) \<longrightarrow> resolvable lk data (es ! j))
                   \<and> snd (ResolveRelocations lk data bp es)
                       = Some (if lk (I32DataId (es ! i)) = -1
                               then DataNotFound (I32DataId (es ! i))
                               else NonConstantDataOffset)
                   \<and> fst (ResolveRelocations lk data bp es)
                       = map (relocated lk data bp) (take i es) @ drop i es))"
proof (cases "\<forall>e\<in>set es. DataOffsetNeedsLinking e \<longrightarrow> resolvable lk data e")
  case True
  have "\<forall>e\<in>set es. DataOffsetNeedsLinking e \<longrightarrow>
          resolvable lk data e \<and> 0 \<le> lk (I32DataId e) \<and> lk (I32DataId e) < int (length data)"
  proof (intro ballI impI)
    fix e assume e: "e \<in> set es" "DataOffsetNeedsLinking e"
    with True have r: "resolvable lk data e" by blast
    then have "lk (I32DataId e) \<noteq> -1" by (simp add: resolvable_def)
    with rng e r show "resolvable lk data e \<and> 0 \<le> lk (I32DataId e) \<and> lk (I32DataId e) < int (length data)"
      by blast
  qed
  then have "ResolveRelocations lk data bp es = (map (relocated lk data bp) es, None)"
    by (rule ResolveRelocations_all)
  with True show ?thesis by simp
next
  case False
  define P where "P = (\<lambda>i. i < length es \<and> DataOffsetNeedsLinking (es ! i) \<and> \<not> resolvable lk data (es ! i))"
  from False obtain i0 where "P i0" unfolding P_def by (metis in_set_conv_nth)
  define i where "i = (LEAST i. P i)"
  have Pi: "P i" unfolding i_def using \<open>P i0\<close> by (rule LeastI)
  have least: "\<forall>j<i. \<not> P j" unfolding i_def using not_less_Least by blast
  have lt: "i < length es" and fl: "DataOffsetNeedsLinking (es ! i)"
    and nr: "\<not> resolvable lk data (es ! i)" using Pi unfolding P_def by simp_all
  have ri: "lk (I32DataId (es ! i)) = -1
         \<or> (0 \<le> lk (I32DataId (es ! i)) \<and> lk (I32DataId (es ! i)) < int (length data))"
    using rng lt fl by (metis nth_mem)
  have before: "\<forall>j<i. DataOffsetNeedsLinking (es ! j) \<longrightarrow> resolvable lk data (es ! j)"
    using least lt unfolding P_def by auto
  have before': "\<forall>j<i. DataOffsetNeedsLinking (es ! j) \<longrightarrow>
           resolvable lk data (es ! j)
           \<and> 0 \<le> lk (I32DataId (es ! j)) \<and> lk (I32DataId (es ! j)) < int (length data)"
  proof (intro allI impI)
    fix j assume j: "j < i" and f: "DataOffsetNeedsLinking (es ! j)"
    with before have r: "resolvable lk data (es ! j)" by blast
    then have "lk (I32DataId (es ! j)) \<noteq> -1" by (simp add: resolvable_def)
    moreover have "es ! j \<in> set es" using j lt by simp
    ultimately show "resolvable lk data (es ! j)
           \<and> 0 \<le> lk (I32DataId (es ! j)) \<and> lk (I32DataId (es ! j)) < int (length data)"
      using rng f r by blast
  qed
  have eq: "ResolveRelocations lk data bp es =
           (map (relocated lk data bp) (take i es) @ drop i es,
            Some (if lk (I32DataId (es ! i)) = -1 then DataNotFound (I32DataId (es ! i))
                  else NonConstantDataOffset))"
    by (rule ResolveRelocations_first_failure [OF lt fl nr ri before'])
  have "\<exists>i<length es.
                   DataOffsetNeedsLinking (es ! i) \<and> \<not> resolvable lk data (es ! i)
                   \<and> (\<forall>j<i. DataOffsetNeedsLinking (es ! j) \<longrightarrow> resolvable lk data (es ! j))
                   \<and> snd (ResolveRelocations lk data bp es)
                       = Some (if lk (I32DataId (es ! i)) = -1
                               then DataNotFound (I32DataId (es ! i))
                               else NonConstantDataOffset)
                   \<and> fst (ResolveRelocations lk data bp es)
                       = map (relocated lk data bp) (take i es) @ drop i es"
    using lt fl nr before eq by (intro exI [of _ i]) simp
  moreover have "snd (ResolveRelocations lk data bp es) \<noteq> None" using eq by simp
  ultimately show ?thesis using False by blast
qed


lemma InstrToOpcode_i32_const: "InstrToOpcode ''i32.const'' = 0x41"
  by (simp add: InstrToOpcode_def opcode_table_def)

theorem C3_ResolveRelocations_witness:
  "ResolveRelocations (\<lambda>n. if n = ''$D0'' then 0 else -1)
     [\<lparr>MemIndex = 0, DataOffset = [zero_Expression\<lparr>Opcode := 0x41, I32Value := 65540\<rparr>],
       DataBytes = [0x68, 0x65, 0x6C, 0x6C, 0x6F]\<rparr>]
     65536
     [zero_Expression\<lparr>Opcode := 0x41, DataOffsetNeedsLinking := True, I32DataId := ''$D0''\<rparr>,
      zero_Expression\<lparr>Opcode := 0x0B\<rparr>]
   = ([zero_Expression\<lparr>Opcode := 0x41, DataOffsetNeedsLinking := True, I32DataId := ''$D0'',
                         I32Value := 4\<rparr>,
       zero_Expression\<lparr>Opcode := 0x0B\<rparr>], None)
   \<and> ResolveRelocations (\<lambda>n. if n = ''$D0'' then 0 else -1)
     [\<lparr>MemIndex = 0, DataOffset = [zero_Expression\<lparr>Opcode := 0x23\<rparr>],
       DataBytes = [0x68, 0x65, 0x6C, 0x6C, 0x6F]\<rparr>]
     65536
     [zero_Expression\<lparr>Opcode := 0x41, DataOffsetNeedsLinking := True, I32DataId := ''$D0''\<rparr>]
   = ([zero_Expression\<lparr>Opcode := 0x41, DataOffsetNeedsLinking := True, I32DataId := ''$D0''\<rparr>],
      Some NonConstantDataOffset)"
  using C3_ResolveRelocations_resolves_or_fails
    [of "[zero_Expression\<lparr>Opcode := 0x41, DataOffsetNeedsLinking := True, I32DataId := ''$D0''\<rparr>,
          zero_Expression\<lparr>Opcode := 0x0B\<rparr>]"
        "\<lambda>n. if n = ''$D0'' then 0 else -1"
        "[\<lparr>MemIndex = 0, DataOffset = [zero_Expression\<lparr>Opcode := 0x41, I32Value := 65540\<rparr>],
           DataBytes = [0x68, 0x65, 0x6C, 0x6C, 0x6F]\<rparr>]"
        65536]
    C3_ResolveRelocations_resolves_or_fails
    [of "[zero_Expression\<lparr>Opcode := 0x41, DataOffsetNeedsLinking := True, I32DataId := ''$D0''\<rparr>]"
        "\<lambda>n. if n = ''$D0'' then 0 else -1"
        "[\<lparr>MemIndex = 0, DataOffset = [zero_Expression\<lparr>Opcode := 0x23\<rparr>],
           DataBytes = [0x68, 0x65, 0x6C, 0x6C, 0x6F]\<rparr>]"
        65536]
  by (simp add: InstrToOpcode_i32_const zero_Expression_def)

subsection \<open>Appending a data segment\<close>

lemma align8_and_7: "((x :: i32) AND (-8)) AND 7 = 0"
proof -
  have "(-8 :: i32) = NOT (mask 3)" "(7 :: i32) = mask 3" by (simp_all add: mask_eq_exp_minus_1)
  then show ?thesis by (simp add: bit_eq_iff bit_simps)
qed

lemma align8_unat: "unat ((x :: i32) AND (-8)) = (unat x div 8) * 8"
proof -
  have m: "(-8 :: i32) = NOT (mask 3)" by (simp add: mask_eq_exp_minus_1)
  have "x AND NOT (mask 3) = push_bit 3 (drop_bit 3 x)"
    by (rule bit_word_eqI) (auto simp: bit_simps)
  then have "unat (x AND (-8)) = unat (push_bit 3 (drop_bit 3 x))" using m by simp
  also have "\<dots> = take_bit 32 (push_bit 3 (drop_bit 3 (unat x)))"
  proof -
    have "take_bit 32 (unat x) = unat x"
      by (rule take_bit_nat_eq_self) (use unsigned_less [of x] in simp)
    then show ?thesis by (simp add: unsigned_push_bit_eq unsigned_drop_bit_eq)
  qed
  also have "\<dots> = push_bit 3 (drop_bit 3 (unat x))"
  proof (rule take_bit_nat_eq_self)
    have "push_bit 3 (drop_bit 3 (unat x)) \<le> unat x"
      by (simp add: push_bit_eq_mult drop_bit_eq_div)
    moreover have "unat x < 2 ^ 32" using unsigned_less [of x] by simp
    ultimately show "push_bit 3 (drop_bit 3 (unat x)) < 2 ^ 32" by linarith
  qed
  also have "\<dots> = (unat x div 8) * 8"
    by (simp add: push_bit_eq_mult drop_bit_eq_div)
  finally show ?thesis .
qed

lemma align8_distance: "unat ((((w :: i32) + 7) AND (-8)) - w) < 8"
proof -
  let ?x = "w + 7"
  let ?r = "?x AND (-8)"
  have le: "unat ?r \<le> unat ?x" by (simp add: align8_unat)
  have "?x - ?r = word_of_nat (unat ?x - unat ?r)"
    using le by (simp add: of_nat_diff)
  moreover have "unat ?x - unat ?r = unat ?x mod 8"
    by (simp add: align8_unat minus_div_mult_eq_mod)
  ultimately have d: "?x - ?r = word_of_nat (unat ?x mod 8)" by simp
  have "?r - w = 7 - (?x - ?r)" by simp
  also have "\<dots> = word_of_nat 7 - word_of_nat (unat ?x mod 8)" using d by simp
  also have "\<dots> = word_of_nat (7 - unat ?x mod 8)"
    by (simp add: of_nat_diff)
  finally have e: "?r - w = word_of_nat (7 - unat ?x mod 8)" .
  have "unat (word_of_nat (7 - unat ?x mod 8) :: i32) = (7 - unat ?x mod 8) mod 2 ^ 32"
    by (simp only: unat_of_nat len_bit0 len_num1) simp
  also have "\<dots> = 7 - unat ?x mod 8"
  proof (rule mod_less)
    have "7 - unat ?x mod 8 \<le> 7" by simp
    also have "(7 :: nat) < 2 ^ 32" by simp
    finally show "7 - unat ?x mod 8 < 2 ^ 32" .
  qed
  finally have "unat (?r - w) = 7 - unat ?x mod 8" by (simp only: e)
  then show ?thesis by linarith
qed


lemma align8_no_overflow:
  assumes "unat (p :: i32) + n + 7 < 2 ^ 32"
  shows "unat (((p + of_nat n) + 7) AND (-8)) = ((unat p + n + 7) div 8) * 8"
proof -
  have n: "unat (of_nat n :: i32) = n"
    using assms by (simp add: unat_of_nat)
  have "unat (p + of_nat n) = unat p + unat (of_nat n :: i32)"
    by (rule unat_add_lem [THEN iffD1]) (use assms n in simp)
  then have s: "unat (p + of_nat n) = unat p + n" using n by simp
  have "unat ((p + of_nat n) + 7) = unat (p + of_nat n) + unat (7 :: i32)"
    by (rule unat_add_lem [THEN iffD1]) (use assms s in simp)
  then have "unat ((p + of_nat n) + 7) = unat p + n + 7" using s by simp
  then show ?thesis by (simp add: align8_unat)
qed

text \<open>
  C10. Unless the last segment has an empty offset expression (then \<open>prev.Offset[0]\<close>
  panics), \<open>AddData\<close> appends one segment and changes nothing else but the data-name map,
  where the name goes under the new segment's index. The new segment has memory index 0,
  the given bytes, and as offset a single \<open>i32.const\<close> whose value is a multiple of 8: 0 for
  the first segment of a module, and otherwise the first multiple of 8 at or after the
  last segment's \<open>I32Value\<close> plus its byte length, less than 8 above it, in 32-bit arithmetic
  (the sum as a number, rounded up to a multiple of 8, when that stays below \<open>2^32\<close>).
\<close>

theorem C10_AddData_appends_aligned_segment:
  "(Data wfile \<noteq> [] \<and> DataOffset (last (Data wfile)) = []
      \<longrightarrow> AddData name data wfile = Inl IndexOutOfRange)
   \<and> (Data wfile = [] \<or> DataOffset (last (Data wfile)) \<noteq> []
      \<longrightarrow> (\<exists>ptr.
            AddData name data wfile =
              Inr (wfile\<lparr>Data := Data wfile @
                               [\<lparr>MemIndex = 0,
                                 DataOffset = [zero_Expression\<lparr>Opcode := InstrToOpcode ''i32.const'',
                                                                I32Value := ptr\<rparr>],
                                 DataBytes = data\<rparr>],
                            dataNames := (dataNames wfile)(int (length (Data wfile)) \<mapsto> name)\<rparr>)
            \<and> ptr AND 7 = 0
            \<and> (Data wfile = [] \<longrightarrow> ptr = 0)
            \<and> (Data wfile \<noteq> [] \<longrightarrow>
                 unat (ptr - (I32Value (DataOffset (last (Data wfile)) ! 0)
                              + of_nat (length (DataBytes (last (Data wfile)))))) < 8
                 \<and> (unat (I32Value (DataOffset (last (Data wfile)) ! 0))
                       + length (DataBytes (last (Data wfile))) + 7 < 2 ^ 32
                     \<longrightarrow> unat ptr
                           = ((unat (I32Value (DataOffset (last (Data wfile)) ! 0))
                                + length (DataBytes (last (Data wfile))) + 7) div 8) * 8))))"
proof (intro conjI impI)
  assume "Data wfile \<noteq> [] \<and> DataOffset (last (Data wfile)) = []"
  then show "AddData name data wfile = Inl IndexOutOfRange" by (simp add: AddData_def)
next
  assume ok: "Data wfile = [] \<or> DataOffset (last (Data wfile)) \<noteq> []"
  show "\<exists>ptr.
            AddData name data wfile =
              Inr (wfile\<lparr>Data := Data wfile @
                               [\<lparr>MemIndex = 0,
                                 DataOffset = [zero_Expression\<lparr>Opcode := InstrToOpcode ''i32.const'',
                                                                I32Value := ptr\<rparr>],
                                 DataBytes = data\<rparr>],
                            dataNames := (dataNames wfile)(int (length (Data wfile)) \<mapsto> name)\<rparr>)
            \<and> ptr AND 7 = 0
            \<and> (Data wfile = [] \<longrightarrow> ptr = 0)
            \<and> (Data wfile \<noteq> [] \<longrightarrow>
                 unat (ptr - (I32Value (DataOffset (last (Data wfile)) ! 0)
                              + of_nat (length (DataBytes (last (Data wfile)))))) < 8
                 \<and> (unat (I32Value (DataOffset (last (Data wfile)) ! 0))
                       + length (DataBytes (last (Data wfile))) + 7 < 2 ^ 32
                     \<longrightarrow> unat ptr
                           = ((unat (I32Value (DataOffset (last (Data wfile)) ! 0))
                                + length (DataBytes (last (Data wfile))) + 7) div 8) * 8))"
  proof (cases "Data wfile = []")
    case True
    have z: "((0 :: i32) + 7) AND (-8) = 0" by simp
    show ?thesis
      by (rule exI [of _ 0]) (use True z in \<open>simp add: AddData_def Let_def\<close>)
  next
    case False
    let ?p = "I32Value (DataOffset (last (Data wfile)) ! 0)"
    let ?n = "length (DataBytes (last (Data wfile)))"
    let ?ptr = "((?p + of_nat ?n) + 7) AND (-8)"
    have a: "AddData name data wfile =
              Inr (wfile\<lparr>Data := Data wfile @
                               [\<lparr>MemIndex = 0,
                                 DataOffset = [zero_Expression\<lparr>Opcode := InstrToOpcode ''i32.const'',
                                                                I32Value := ?ptr\<rparr>],
                                 DataBytes = data\<rparr>],
                            dataNames := (dataNames wfile)(int (length (Data wfile)) \<mapsto> name)\<rparr>)"
      using False ok by (simp add: AddData_def Let_def)
    have b: "?ptr AND 7 = 0" by (rule align8_and_7)
    have c: "unat (?ptr - (?p + of_nat ?n)) < 8" by (rule align8_distance)
    have d: "unat ?p + ?n + 7 < 2 ^ 32 \<longrightarrow> unat ?ptr = ((unat ?p + ?n + 7) div 8) * 8"
      using align8_no_overflow [of ?p ?n] by blast
    show ?thesis
      by (rule exI [of _ ?ptr]) (use a b c d False in blast)
  qed
qed


theorem C10_AddData_witness:
  "AddData ''$name'' [0x66, 0x6F]
     \<lparr>Type = [], Export = [], Import = [], Code = [],
      Data = [\<lparr>MemIndex = 0, DataOffset = [zero_Expression\<lparr>Opcode := 0x41, I32Value := 65536\<rparr>],
               DataBytes = [0x68, 0x65, 0x6C, 0x6C, 0x6F]\<rparr>],
      Elem = [], functionDebug = Map.empty, functionSignature = Map.empty,
      FunctionNames = Map.empty, dataNames = [0 \<mapsto> ''$hello'']\<rparr>
   = Inr \<lparr>Type = [], Export = [], Import = [], Code = [],
      Data = [\<lparr>MemIndex = 0, DataOffset = [zero_Expression\<lparr>Opcode := 0x41, I32Value := 65536\<rparr>],
               DataBytes = [0x68, 0x65, 0x6C, 0x6C, 0x6F]\<rparr>,
              \<lparr>MemIndex = 0, DataOffset = [zero_Expression\<lparr>Opcode := 0x41, I32Value := 65544\<rparr>],
               DataBytes = [0x66, 0x6F]\<rparr>],
      Elem = [], functionDebug = Map.empty, functionSignature = Map.empty,
      FunctionNames = Map.empty, dataNames = [0 \<mapsto> ''$hello'', 1 \<mapsto> ''$name'']\<rparr>"
proof -
  have v: "((65536 :: i32) + 5 + 7) AND (-8) = 65544" by simp
  show ?thesis
    using C10_AddData_appends_aligned_segment
      [of "\<lparr>Type = [], Export = [], Import = [], Code = [],
      Data = [\<lparr>MemIndex = 0, DataOffset = [zero_Expression\<lparr>Opcode := 0x41, I32Value := 65536\<rparr>],
               DataBytes = [0x68, 0x65, 0x6C, 0x6C, 0x6F]\<rparr>],
      Elem = [], functionDebug = Map.empty, functionSignature = Map.empty,
      FunctionNames = Map.empty, dataNames = [0 \<mapsto> ''$hello'']\<rparr>" "''$name''" "[0x66, 0x6F]"]
      v
    by (simp add: AddData_def Let_def InstrToOpcode_i32_const)
qed

end
